theory Spec2Isabelle
  imports Complex_Main "HOL-Library.Multiset"
begin

section \<open>Numbers and vectors\<close>

text \<open>
  The game is written in JavaScript. Every JavaScript Number of the source is modelled
  by a \<^typ>\<open>real\<close>: the arithmetic below is the exact arithmetic that the
  IEEE doubles of the program approximate, and no rounding is modelled. Counters that
  the source only ever increments by one from zero (scores, rounds won) are
  \<^typ>\<open>nat\<close>.

  A \<open>THREE.Vector3\<close> (and a \<open>CANNON.Vec3\<close>) is a triple of numbers. The
  operations are those of the three.js library the source calls: \<open>length\<close>,
  \<open>multiplyScalar\<close>, \<open>add\<close>, \<open>dot\<close> and \<open>normalize\<close>, the last
  one being \<open>divideScalar(length() || 1)\<close>, which leaves the zero vector as it is.
\<close>

datatype vec3 = Vec3 (vx: real) (vy: real) (vz: real)

definition vlength :: "vec3 \<Rightarrow> real" where
  "vlength v = sqrt (vx v * vx v + vy v * vy v + vz v * vz v)"

definition multiplyScalar :: "vec3 \<Rightarrow> real \<Rightarrow> vec3" where
  "multiplyScalar v s = Vec3 (vx v * s) (vy v * s) (vz v * s)"

definition vadd :: "vec3 \<Rightarrow> vec3 \<Rightarrow> vec3" where
  "vadd a b = Vec3 (vx a + vx b) (vy a + vy b) (vz a + vz b)"

definition vdot :: "vec3 \<Rightarrow> vec3 \<Rightarrow> real" where
  "vdot a b = vx a * vx b + vy a * vy b + vz a * vz b"

definition vnormalize :: "vec3 \<Rightarrow> vec3" where
  "vnormalize v =
     (let l = vlength v in multiplyScalar v (1 / (if l = 0 then 1 else l)))"

text \<open>
  \<open>v.set(0, 0, -1); v.applyEuler(e)\<close> with \<open>e = Euler(pitch, yaw, 0, 'YXZ')\<close>:
  the forward vector \<open>(0, 0, -1)\<close> turned by \<open>pitch\<close> about the x axis and then
  by \<open>yaw\<close> about the y axis (three.js, rotation order YXZ).
\<close>

definition applyEulerForward :: "real \<Rightarrow> real \<Rightarrow> vec3" where
  "applyEulerForward pitch yaw =
     Vec3 (- (sin yaw * cos pitch)) (sin pitch) (- (cos yaw * cos pitch))"

section \<open>Configuration (config.js)\<close>

definition THROW_SPEED :: real where "THROW_SPEED = 45"
definition REFLECT_SPEED_MULT :: real where "REFLECT_SPEED_MULT = 1.3"
definition PARRY_SPEED_MULT :: real where "PARRY_SPEED_MULT = 1.6"
definition PARRY_WINDOW_MS :: real where "PARRY_WINDOW_MS = 150"
definition SHIELD_ENERGY_MAX :: real where "SHIELD_ENERGY_MAX = 1.0"
definition SHIELD_DRAIN_RATE :: real where "SHIELD_DRAIN_RATE = 0.35"
definition SHIELD_RECHARGE_RATE :: real where "SHIELD_RECHARGE_RATE = 0.3"
definition SHIELD_MIN_ACTIVATE :: real where "SHIELD_MIN_ACTIVATE = 0.15"
definition STRIKE_SPEED_SCALE :: real where "STRIKE_SPEED_SCALE = 0.10"
definition STRIKE_MIN_ORB_SPEED :: real where "STRIKE_MIN_ORB_SPEED = 5.0"
definition SCORE_MIN_SPEED :: real where "SCORE_MIN_SPEED = 3.0"
definition SCORE_DEBOUNCE_MS :: real where "SCORE_DEBOUNCE_MS = 1000"
definition HIT_GRACE_PERIOD_MS :: real where "HIT_GRACE_PERIOD_MS = 500"
definition OPP_HIT_RADIUS :: real where "OPP_HIT_RADIUS = 1.5"
definition POINTS_TO_WIN :: nat where "POINTS_TO_WIN = 7"
definition ROUNDS_TO_WIN :: nat where "ROUNDS_TO_WIN = 2"
definition RESET_DELAY_S :: real where "RESET_DELAY_S = 1.2"
definition RETURN_INITIAL_SPEED :: real where "RETURN_INITIAL_SPEED = 22"
definition FLICK_THRESHOLD_PX :: real where "FLICK_THRESHOLD_PX = 150"
definition FLICK_CURVE_ACCEL :: real where "FLICK_CURVE_ACCEL = 8.0"
definition FLICK_CURVE_DURATION_S :: real where "FLICK_CURVE_DURATION_S = 0.3"
definition ARENA_LENGTH :: real where "ARENA_LENGTH = 60"
definition ARENA_WIDTH :: real where "ARENA_WIDTH = 10"
definition ARENA_HEIGHT :: real where "ARENA_HEIGHT = 5.5"
definition AIR_DRAG :: real where "AIR_DRAG = 0.9995"

section \<open>Physics stepping (physics.js)\<close>

text \<open>
  \<open>stepPhysics(physics, maxSpeed, dt)\<close>. The rigid-body engine is outside the
  repository: its world is a type parameter and \<open>world.step\<close> a parameter
  \<open>step\<close>. The \<open>for\<close> loop over \<open>i\<close> is \<open>stepLoop\<close>.
\<close>

function stepLoop :: "(real \<Rightarrow> 'w \<Rightarrow> 'w) \<Rightarrow> real \<Rightarrow> nat \<Rightarrow> nat \<Rightarrow> 'w \<Rightarrow> 'w" where
  "stepLoop step subDt subSteps i world =
     (if i < subSteps then stepLoop step subDt subSteps (i + 1) (step subDt world)
      else world)"
  by pat_completeness auto
termination
  by (relation "measure (\<lambda>(step, subDt, subSteps, i, world). subSteps - i)") auto

declare stepLoop.simps [simp del]

definition stepPhysics :: "(real \<Rightarrow> 'w \<Rightarrow> 'w) \<Rightarrow> real \<Rightarrow> real \<Rightarrow> 'w \<Rightarrow> 'w" where
  "stepPhysics step maxSpeed dt world =
     (let subSteps = (if maxSpeed > 30 then 3 else if maxSpeed > 15 then 2 else (1::nat));
          subDt = dt / real subSteps
      in stepLoop step subDt subSteps 0 world)"

section \<open>Coordinate mirroring (network.js)\<close>

record snapshot =
  px :: real
  py :: real
  pz :: real
  yaw :: real
  pitch :: real
  blocking :: bool
  crouching :: bool
  dashActive :: bool
  armed :: bool
  orbHeld :: bool
  orbX :: real
  orbY :: real
  orbZ :: real
  orbVx :: real
  orbVy :: real
  orbVz :: real
  orbReturning :: bool
  orbStrikeStacks :: real

definition mirrorState :: "snapshot \<Rightarrow> snapshot" where
  "mirrorState data =
     \<lparr> px = px data,
       py = py data,
       pz = - pz data,
       yaw = yaw data + pi,
       pitch = pitch data,
       blocking = blocking data,
       crouching = crouching data,
       dashActive = dashActive data,
       armed = armed data,
       orbHeld = orbHeld data,
       orbX = orbX data,
       orbY = orbY data,
       orbZ = - orbZ data,
       orbVx = orbVx data,
       orbVy = orbVy data,
       orbVz = - orbVz data,
       orbReturning = orbReturning data,
       orbStrikeStacks = orbStrikeStacks data \<rparr>"

section \<open>Game state, orbs and shields (main.js, orb.js, shield.js)\<close>

text \<open>
  The records hold the fields of the source objects that the functions modelled below
  read or write. Rendering, audio, particles, HUD and network sends are outputs only and
  are left out. A physics body is referred to by object identity in the source
  (\<open>event.orbBody !== orbBody\<close>, \<open>bounce.bodyId === bodyId\<close>); here a body
  carries its engine id and identity is equality of ids.
\<close>

datatype team = player | opponent

datatype phase = title | countdown | go_flash | playing | scoring | between_rounds | match_over

record inputState =
  blocking :: bool
  throwTriggered :: bool

record gameState =
  playerScore :: nat
  opponentScore :: nat
  round' :: nat
  playerRounds :: nat
  opponentRounds :: nat
  matchPhase :: phase
  countdownTimer :: real
  countdownLast :: real
  resetTimer :: real
  playerPos :: vec3
  playerArmed :: bool
  blocking :: bool
  cameraYaw :: real
  cameraPitch :: real
  dashActive :: bool
  throws :: nat
  throwTime :: real
  firstThrow :: bool
  discRecalling :: bool
  onGround :: bool
  shieldEnergy :: real
  parryFlashTimer :: real
  lastPlayerHitTime :: real
  lastOppHitTime :: real
  hitFlashTimer :: real
  shakeTimer :: real
  multiplayerActive :: bool

record orbState =
  position :: vec3
  velocity :: vec3
  isHeld :: bool
  owner :: team
  lastDeflectedBy :: "team option"
  strikeStacks :: nat
  throwTime :: real
  recalling :: bool
  stallTimer :: real
  returning :: bool
  returnTimer :: real
  curveAccel :: vec3
  curveTimer :: real

record cannonBody =
  body_id :: nat
  body_position :: vec3
  body_velocity :: vec3
  body_angularVelocity :: vec3
  body_linearDamping :: real

record orb =
  state :: orbState
  body :: cannonBody

text \<open>The scripted opponent's state, as far as hit detection reads and writes it.\<close>

record opponentState =
  alive :: bool
  dissolving :: bool
  dissolveTimer :: real
  opponent_position :: vec3

record shieldState =
  active :: bool
  raiseTime :: real
  flashTimer :: real

text \<open>A queued reflection event: the body that touched the shield and the time.\<close>

record reflection =
  orbBody :: nat
  timestamp :: real

record shield =
  reflections :: "reflection list"
  shield_state :: shieldState
  mesh_rotation_x :: real
  mesh_rotation_y :: real

record reflectResult =
  isParry :: bool
  speed :: real

subsection \<open>processReflection (shield.js)\<close>

text \<open>
  \<open>processReflection(shield, orbState, orbBody, aimDirection)\<close> returns the result
  (\<open>None\<close> for \<open>null\<close>) together with the shield, the orb state and the orb body
  as it leaves them. \<open>aimDirection\<close> is \<open>None\<close> when the caller passes no
  fourth argument.
\<close>

definition processReflection ::
  "shield \<Rightarrow> orbState \<Rightarrow> cannonBody \<Rightarrow> vec3 option
    \<Rightarrow> reflectResult option \<times> shield \<times> orbState \<times> cannonBody" where
  "processReflection shield orbSt orbBd aimDirection =
     (case reflections shield of
        [] \<Rightarrow> (None, shield, orbSt, orbBd)
      | event # rest \<Rightarrow>
          (let shield1 = shield\<lparr>reflections := rest\<rparr> in
           if orbBody event \<noteq> body_id orbBd then (None, shield1, orbSt, orbBd)
           else
             (let reflectVel = body_velocity orbBd;
                  speed = vlength reflectVel;
                  timeSinceRaise = timestamp event - raiseTime (shield_state shield1);
                  isParry = (timeSinceRaise \<le> PARRY_WINDOW_MS);
                  mult = (if isParry then PARRY_SPEED_MULT else REFLECT_SPEED_MULT);
                  reflectResult =
                    (case aimDirection of
                       Some aim \<Rightarrow> multiplyScalar (vnormalize aim) (speed * mult)
                     | None \<Rightarrow>
                         (let reflectNormal =
                                applyEulerForward (mesh_rotation_x shield1) (mesh_rotation_y shield1);
                              dot = vdot reflectVel reflectNormal
                          in multiplyScalar
                               (vnormalize (vadd (multiplyScalar reflectNormal (- 2 * dot)) reflectVel))
                               (speed * mult)));
                  shield2 =
                    (if isParry
                     then shield1\<lparr>shield_state := (shield_state shield1)\<lparr>flashTimer := 0.3\<rparr>\<rparr>
                     else shield1)
              in (Some \<lparr>isParry = isParry, speed = speed * mult\<rparr>,
                  shield2,
                  orbSt\<lparr>velocity := reflectResult\<rparr>,
                  orbBd\<lparr>body_velocity := reflectResult\<rparr>))))"

subsection \<open>handleShieldReflections (main.js)\<close>

text \<open>
  The body of the \<open>while\<close> loop: one call of \<open>processReflection\<close> on the player's
  shield and the opponent's orb, then the bookkeeping of a successful reflection.
\<close>

definition reflectionIteration ::
  "vec3 \<Rightarrow> gameState \<times> shield \<times> orb \<Rightarrow> reflectResult option \<times> gameState \<times> shield \<times> orb" where
  "reflectionIteration aimDir s =
     (case s of (g, playerShield, opponentOrb) \<Rightarrow>
       (case processReflection playerShield (state opponentOrb) (body opponentOrb) (Some aimDir) of
          (result, shield1, orbSt1, orbBd1) \<Rightarrow>
            (case result of
               None \<Rightarrow> (None, g, shield1, opponentOrb\<lparr>state := orbSt1, body := orbBd1\<rparr>)
             | Some r \<Rightarrow>
                 (Some r,
                  (if isParry r
                   then g\<lparr>cameraPitch := cameraPitch g + 0.02, parryFlashTimer := 0.1\<rparr>
                   else g),
                  shield1,
                  opponentOrb\<lparr>state := orbSt1\<lparr>owner := player, lastDeflectedBy := Some player\<rparr>,
                              body := orbBd1\<rparr>))))"

text \<open>
  The loop \<open>while (playerShield.reflections.length > 0)\<close>. Beside the final state it
  returns the result of each call of \<open>processReflection\<close>, in order, so that the
  calls can be counted.
\<close>

function drainReflections ::
  "vec3 \<Rightarrow> gameState \<times> shield \<times> orb \<Rightarrow> reflectResult option list \<times> gameState \<times> shield \<times> orb" where
  "drainReflections aimDir (g, playerShield, opponentOrb) =
     (if length (reflections playerShield) > 0
      then (case reflectionIteration aimDir (g, playerShield, opponentOrb) of
              (result, s') \<Rightarrow>
                (case drainReflections aimDir s' of (results, s'') \<Rightarrow> (result # results, s'')))
      else ([], g, playerShield, opponentOrb))"
  by pat_completeness auto
termination
  by (relation "measure (\<lambda>(aimDir, g, sh, ob). length (reflections sh))")
     (auto simp: reflectionIteration_def processReflection_def Let_def
           split: if_splits option.splits prod.splits list.splits)

declare drainReflections.simps [simp del]

definition handleShieldReflections ::
  "gameState \<times> shield \<times> orb \<Rightarrow> reflectResult option list \<times> gameState \<times> shield \<times> orb" where
  "handleShieldReflections s =
     (case s of (g, playerShield, opponentOrb) \<Rightarrow>
        drainReflections (applyEulerForward (cameraPitch g) (cameraYaw g))
          (g, playerShield, opponentOrb))"

subsection \<open>Match flow (main.js)\<close>

definition PLAYER_SPAWN :: vec3 where
  "PLAYER_SPAWN = Vec3 0 1.7 (ARENA_LENGTH / 2 - 2)"

definition startCountdown :: "gameState \<Rightarrow> gameState" where
  "startCountdown g = g\<lparr>matchPhase := countdown, countdownTimer := 3.0, countdownLast := 4\<rparr>"

definition beginPlaying :: "gameState \<Rightarrow> gameState" where
  "beginPlaying g = g\<lparr>matchPhase := playing\<rparr>"

text \<open>
  \<open>scorePoint(scorer)\<close>. Its callers pass \<open>'player'\<close> or \<open>'opponent'\<close>.
\<close>

definition scorePoint :: "team \<Rightarrow> gameState \<Rightarrow> gameState" where
  "scorePoint scorer g =
     (let g1 = (if scorer = player then g\<lparr>playerScore := playerScore g + 1\<rparr>
                else g\<lparr>opponentScore := opponentScore g + 1\<rparr>)
      in if playerScore g1 \<ge> POINTS_TO_WIN \<or> opponentScore g1 \<ge> POINTS_TO_WIN
         then
           (let roundWinner = (if playerScore g1 \<ge> POINTS_TO_WIN then player else opponent);
                g2 = (if roundWinner = player then g1\<lparr>playerRounds := playerRounds g1 + 1\<rparr>
                      else g1\<lparr>opponentRounds := opponentRounds g1 + 1\<rparr>)
            in if playerRounds g2 \<ge> ROUNDS_TO_WIN \<or> opponentRounds g2 \<ge> ROUNDS_TO_WIN
               then g2\<lparr>matchPhase := match_over\<rparr>
               else g2\<lparr>matchPhase := between_rounds, resetTimer := 2.5\<rparr>)
         else g1\<lparr>matchPhase := scoring, resetTimer := RESET_DELAY_S\<rparr>)"

text \<open>
  \<open>resetPositions()\<close>, on the fields of \<open>gameState\<close> kept here. It also resets
  both orbs, both shields, the opponent and the camera, which are other objects.
\<close>

definition resetPositions :: "gameState \<Rightarrow> gameState" where
  "resetPositions g =
     g\<lparr>playerPos := PLAYER_SPAWN, cameraYaw := 0, cameraPitch := 0, playerArmed := True,
       blocking := False, dashActive := False, discRecalling := False,
       shieldEnergy := SHIELD_ENERGY_MAX, onGround := True\<rparr>"

definition nextRound :: "gameState \<Rightarrow> gameState" where
  "nextRound g =
     startCountdown (resetPositions (g\<lparr>round' := round' g + 1, playerScore := 0,
                                        opponentScore := 0\<rparr>))"

definition resetMatch :: "gameState \<Rightarrow> gameState" where
  "resetMatch g =
     startCountdown (resetPositions (g\<lparr>round' := 1, playerRounds := 0, opponentRounds := 0,
                                        playerScore := 0, opponentScore := 0, throws := 0,
                                        firstThrow := False\<rparr>))"

definition updateCountdown :: "real \<Rightarrow> gameState \<Rightarrow> gameState" where
  "updateCountdown dt g =
     (let g1 = g\<lparr>countdownTimer := countdownTimer g - dt\<rparr>;
          timeLeft = of_int \<lceil>countdownTimer g1\<rceil>;
          g2 = (if timeLeft \<noteq> countdownLast g1 \<and> timeLeft > 0
                then g1\<lparr>countdownLast := timeLeft\<rparr> else g1)
      in if countdownTimer g2 \<le> 0 then g2\<lparr>matchPhase := go_flash\<rparr> else g2)"

definition updateScoringPhase :: "real \<Rightarrow> gameState \<Rightarrow> gameState" where
  "updateScoringPhase dt g =
     (let g1 = g\<lparr>resetTimer := resetTimer g - dt\<rparr>
      in if resetTimer g1 \<le> 0 then (resetPositions g1)\<lparr>matchPhase := playing\<rparr> else g1)"

definition updateBetweenRounds :: "real \<Rightarrow> gameState \<Rightarrow> gameState" where
  "updateBetweenRounds dt g =
     (let g1 = g\<lparr>resetTimer := resetTimer g - dt\<rparr>
      in if resetTimer g1 \<le> 0 then nextRound g1 else g1)"

text \<open>
  The single-player match flow as the frame loop drives it. \<open>Start\<close> is the first
  pointer lock on the title screen; \<open>Frame dt hit\<close> is one frame of \<open>gameLoop\<close>
  with frame time \<open>dt\<close>, which dispatches on the phase and runs hit detection in the
  playing phase only, \<open>hit\<close> being the score event of that frame, if any;
  \<open>GoTimeout\<close> is the timer that \<open>updateCountdown\<close> sets to end the GO flash;
  \<open>PlayAgain\<close> is the click on the play-again button. The other work of a frame does
  not touch the score, round or phase fields.
\<close>

datatype matchEvent = Start | Frame real "team option" | GoTimeout | PlayAgain

fun matchStep :: "gameState \<Rightarrow> matchEvent \<Rightarrow> gameState" where
  "matchStep g Start = (if matchPhase g = title then startCountdown g else g)"
| "matchStep g (Frame dt hit) =
     (case matchPhase g of
        countdown \<Rightarrow> updateCountdown dt g
      | scoring \<Rightarrow> updateScoringPhase dt g
      | between_rounds \<Rightarrow> updateBetweenRounds dt g
      | playing \<Rightarrow> (case hit of None \<Rightarrow> g | Some scorer \<Rightarrow> scorePoint scorer g)
      | _ \<Rightarrow> g)"
| "matchStep g GoTimeout = (if matchPhase g = go_flash then beginPlaying g else g)"
| "matchStep g PlayAgain = resetMatch g"

definition matchRun :: "gameState \<Rightarrow> matchEvent list \<Rightarrow> gameState" where
  "matchRun g events = foldl matchStep g events"

text \<open>The initial \<open>gameState\<close> of main.js, with the phase set to \<open>'title'\<close>.\<close>

definition initialGameState :: gameState where
  "initialGameState =
     \<lparr>playerScore = 0, opponentScore = 0, round' = 1, playerRounds = 0, opponentRounds = 0,
      matchPhase = title, countdownTimer = 3.0, countdownLast = 4, resetTimer = 0,
      playerPos = PLAYER_SPAWN, playerArmed = True, blocking = False, cameraYaw = 0,
      cameraPitch = 0, dashActive = False, throws = 0, throwTime = 0, firstThrow = False,
      discRecalling = False, onGround = True, shieldEnergy = 1.0, parryFlashTimer = 0,
      lastPlayerHitTime = 0, lastOppHitTime = 0, hitFlashTimer = 0, shakeTimer = 0,
      multiplayerActive = False\<rparr>"

text \<open>
  The invariant of the match flow: while a round is open both scores are below
  \<open>POINTS_TO_WIN\<close> and both round counts below \<open>ROUNDS_TO_WIN\<close>; between rounds
  and after the match one score stands at \<open>POINTS_TO_WIN\<close>; after the match one
  round count stands at \<open>ROUNDS_TO_WIN\<close>, and only then.
\<close>

definition matchInvariant :: "gameState \<Rightarrow> bool" where
  "matchInvariant g \<longleftrightarrow>
     (if matchPhase g = between_rounds
      then (playerScore g = 7 \<or> opponentScore g = 7) \<and> playerRounds g < 2 \<and> opponentRounds g < 2
      else if matchPhase g = match_over
      then (playerScore g = 7 \<or> opponentScore g = 7) \<and> (playerRounds g = 2 \<or> opponentRounds g = 2)
      else playerScore g < 7 \<and> opponentScore g < 7 \<and> playerRounds g < 2 \<and> opponentRounds g < 2)"

subsection \<open>Hit detection (main.js, opponent.js)\<close>

definition distanceTo :: "vec3 \<Rightarrow> vec3 \<Rightarrow> real" where
  "distanceTo a b = vlength (Vec3 (vx a - vx b) (vy a - vy b) (vz a - vz b))"

definition startRecall :: "orb \<Rightarrow> orb" where
  "startRecall orb =
     orb\<lparr>state := (state orb)\<lparr>recalling := True, returning := False, returnTimer := 0\<rparr>,
         body := (body orb)\<lparr>body_linearDamping := 0.99\<rparr>\<rparr>"

definition dissolveOpponent :: "opponentState \<Rightarrow> opponentState" where
  "dissolveOpponent st =
     (if \<not> alive st \<or> dissolving st then st
      else st\<lparr>dissolving := True, dissolveTimer := 0\<rparr>)"

text \<open>
  \<open>handleHits()\<close> runs once per frame of the playing phase. Its three blocks are
  given one definition each, in the order of the source; the nested \<open>if\<close>s of a
  block, none of which has an \<open>else\<close>, are one conjunction. \<open>now\<close> is the value
  of \<open>performance.now()\<close> read at the start. In multiplayer the third block reports
  the hit to the server instead of scoring.
\<close>

definition playerOrbHitsOpponent ::
  "real \<Rightarrow> gameState \<times> opponentState \<times> orb \<times> orb \<Rightarrow> gameState \<times> opponentState \<times> orb \<times> orb" where
  "playerOrbHitsOpponent now s =
     (case s of (g, opp, playerOrb, opponentOrb) \<Rightarrow>
        if \<not> isHeld (state playerOrb) \<and> \<not> recalling (state playerOrb)
           \<and> \<not> returning (state playerOrb)
           \<and> alive opp \<and> \<not> dissolving opp
           \<and> now - throwTime (state playerOrb) > HIT_GRACE_PERIOD_MS
           \<and> now - lastOppHitTime g > SCORE_DEBOUNCE_MS
           \<and> vlength (velocity (state playerOrb)) > SCORE_MIN_SPEED
           \<and> distanceTo (position (state playerOrb)) (opponent_position opp) < OPP_HIT_RADIUS
        then
          (let g1 = g\<lparr>lastOppHitTime := now\<rparr>;
               scorer = (if owner (state playerOrb) = player then player else opponent);
               playerOrb1 = playerOrb\<lparr>state := (state playerOrb)\<lparr>strikeStacks := 0\<rparr>\<rparr>;
               opp1 = dissolveOpponent opp;
               playerOrb2 = startRecall playerOrb1;
               g2 = g1\<lparr>shakeTimer := 0.15\<rparr>
           in (scorePoint scorer g2, opp1, playerOrb2, opponentOrb))
        else s)"

definition deflectedOrbHitsOpponent ::
  "real \<Rightarrow> gameState \<times> opponentState \<times> orb \<times> orb \<Rightarrow> gameState \<times> opponentState \<times> orb \<times> orb" where
  "deflectedOrbHitsOpponent now s =
     (case s of (g, opp, playerOrb, opponentOrb) \<Rightarrow>
        if \<not> isHeld (state opponentOrb) \<and> \<not> recalling (state opponentOrb)
           \<and> \<not> returning (state opponentOrb)
           \<and> alive opp \<and> \<not> dissolving opp
           \<and> owner (state opponentOrb) = player
           \<and> now - lastOppHitTime g > SCORE_DEBOUNCE_MS
           \<and> vlength (velocity (state opponentOrb)) > SCORE_MIN_SPEED
           \<and> distanceTo (position (state opponentOrb)) (opponent_position opp) < OPP_HIT_RADIUS
        then
          (let g1 = g\<lparr>lastOppHitTime := now\<rparr>;
               opponentOrb1 = opponentOrb\<lparr>state := (state opponentOrb)\<lparr>strikeStacks := 0\<rparr>\<rparr>;
               opp1 = dissolveOpponent opp;
               g2 = g1\<lparr>shakeTimer := 0.15\<rparr>
           in (scorePoint player g2, opp1, playerOrb, opponentOrb1))
        else s)"

definition opponentOrbHitsPlayer ::
  "real \<Rightarrow> gameState \<times> opponentState \<times> orb \<times> orb \<Rightarrow> gameState \<times> opponentState \<times> orb \<times> orb" where
  "opponentOrbHitsPlayer now s =
     (case s of (g, opp, playerOrb, opponentOrb) \<Rightarrow>
        if \<not> isHeld (state opponentOrb) \<and> \<not> recalling (state opponentOrb)
           \<and> \<not> returning (state opponentOrb)
           \<and> (multiplayerActive g \<or> now - throwTime (state opponentOrb) > HIT_GRACE_PERIOD_MS)
           \<and> now - lastPlayerHitTime g > SCORE_DEBOUNCE_MS
           \<and> (multiplayerActive g \<or> owner (state opponentOrb) = opponent)
           \<and> vlength (velocity (state opponentOrb)) > SCORE_MIN_SPEED
           \<and> distanceTo (position (state opponentOrb)) (playerPos g) < OPP_HIT_RADIUS
        then
          (let g1 = g\<lparr>lastPlayerHitTime := now\<rparr>;
               opponentOrb1 = opponentOrb\<lparr>state := (state opponentOrb)\<lparr>strikeStacks := 0\<rparr>\<rparr>;
               g2 = g1\<lparr>hitFlashTimer := 0.2, shakeTimer := 0.2\<rparr>
           in if multiplayerActive g2 then (g2, opp, playerOrb, opponentOrb1)
              else (scorePoint opponent g2, opp, playerOrb, startRecall opponentOrb1))
        else s)"

definition handleHits ::
  "real \<Rightarrow> gameState \<times> opponentState \<times> orb \<times> orb \<Rightarrow> gameState \<times> opponentState \<times> orb \<times> orb" where
  "handleHits now s =
     (case s of (g, opp, playerOrb, opponentOrb) \<Rightarrow>
        opponentOrbHitsPlayer now
          (if \<not> multiplayerActive g
           then deflectedOrbHitsOpponent now (playerOrbHitsOpponent now s)
           else s))"

subsection \<open>Throwing (main.js)\<close>

text \<open>
  \<open>handleThrow(input)\<close>, on the game state and the player's orb. The module
  variable \<open>playerVelocity\<close>, the value \<open>flickDx\<close> that \<open>getFlickDelta()\<close>
  returns and the two readings \<open>now1\<close>, \<open>now2\<close> of \<open>performance.now()\<close> are
  parameters.
\<close>

definition handleThrow ::
  "inputState \<Rightarrow> vec3 \<Rightarrow> real \<Rightarrow> real \<Rightarrow> real \<Rightarrow> gameState \<times> orb \<Rightarrow> gameState \<times> orb" where
  "handleThrow input playerVelocity flickDx now1 now2 s =
     (case s of (g, playerOrb) \<Rightarrow>
        if \<not> playerArmed g \<or> gameState.blocking g then s
        else if \<not> throwTriggered input then s
        else if gameState.dashActive g then s
        else
          (let g1 = (if \<not> firstThrow g then g\<lparr>firstThrow := True\<rparr> else g);
               throwSpeed = THROW_SPEED
                  * (1 + real (strikeStacks (state playerOrb)) * STRIKE_SPEED_SCALE);
               tmpVec = vnormalize (applyEulerForward (cameraPitch g1) (cameraYaw g1));
               tmpVec2 = (let v = multiplyScalar tmpVec 1.5 in Vec3 (vx v) (vy v - 0.2) (vz v));
               ds = state playerOrb;
               ds1 = ds\<lparr>isHeld := False, position := vadd (playerPos g1) tmpVec2\<rparr>;
               v0 = multiplyScalar tmpVec throwSpeed;
               ds2 = ds1\<lparr>velocity := Vec3 (vx v0 + vx playerVelocity * 0.5)
                                         (vy v0 + vy playerVelocity * 0.5)
                                         (vz v0 + vz playerVelocity * 0.5),
                        throwTime := now1, recalling := False, stallTimer := 0,
                        returning := False, returnTimer := 0\<rparr>;
               bd = (body playerOrb)\<lparr>body_linearDamping := 0.01,
                                      body_position := position ds2,
                                      body_velocity := velocity ds2,
                                      body_angularVelocity := Vec3 0 (throwSpeed * 0.5) 0\<rparr>;
               ds3 = (if \<bar>flickDx\<bar> > FLICK_THRESHOLD_PX
                      then
                        (let tmpVec3 = Vec3 (- sin (cameraYaw g1 + pi / 2)) 0
                                            (- cos (cameraYaw g1 + pi / 2));
                             curveMag = sgn flickDx * FLICK_CURVE_ACCEL
                         in ds2\<lparr>curveAccel := multiplyScalar tmpVec3 curveMag,
                                 curveTimer := FLICK_CURVE_DURATION_S\<rparr>)
                      else ds2\<lparr>curveAccel := Vec3 0 0 0, curveTimer := 0\<rparr>);
               g2 = g1\<lparr>playerArmed := False, discRecalling := False,
                       gameState.throwTime := now2, throws := throws g1 + 1\<rparr>
           in (g2, playerOrb\<lparr>state := ds3, body := bd\<rparr>)))"

subsection \<open>Blocking and shield energy (main.js)\<close>

text \<open>\<open>handleBlock(input, dt)\<close>, once per frame of the playing phase.\<close>

definition handleBlock :: "inputState \<Rightarrow> real \<Rightarrow> gameState \<Rightarrow> gameState" where
  "handleBlock input dt g =
     (if gameState.dashActive g then g\<lparr>gameState.blocking := False\<rparr>
      else
        (let wasBlocking = gameState.blocking g;
             wantsBlock = (inputState.blocking input \<and> playerArmed g \<and> onGround g);
             g1 = (if wantsBlock \<and> shieldEnergy g > SHIELD_MIN_ACTIVATE
                   then
                     (let g' = g\<lparr>gameState.blocking := True,
                                  shieldEnergy := shieldEnergy g - SHIELD_DRAIN_RATE * dt\<rparr>
                      in if shieldEnergy g' \<le> 0
                         then g'\<lparr>shieldEnergy := 0, gameState.blocking := False\<rparr>
                         else g')
                   else g\<lparr>gameState.blocking := False\<rparr>)
         in if \<not> gameState.blocking g1
            then g1\<lparr>shieldEnergy :=
                      min SHIELD_ENERGY_MAX (shieldEnergy g1 + SHIELD_RECHARGE_RATE * dt)\<rparr>
            else g1))"

subsection \<open>Bounce handlers (main.js)\<close>

text \<open>
  \<open>onPlayerOrbBounce(pos, normal)\<close> and \<open>onOpponentOrbBounce(pos, normal)\<close> act
  on the global \<open>playerOrb\<close> and \<open>opponentOrb\<close>; the orb is passed and
  returned here.
\<close>

definition onPlayerOrbBounce :: "vec3 \<Rightarrow> vec3 \<Rightarrow> orb \<Rightarrow> orb" where
  "onPlayerOrbBounce pos normal playerOrb =
     (if vz normal < - 0.5 \<and> \<not> returning (state playerOrb) \<and> \<not> isHeld (state playerOrb)
      then
        (let st1 = (state playerOrb)\<lparr>returning := True, returnTimer := 0\<rparr>;
             speed = vlength (velocity st1);
             st2 = (if speed > 0.01
                    then st1\<lparr>velocity :=
                           multiplyScalar (velocity st1) (RETURN_INITIAL_SPEED / speed)\<rparr>
                    else st1);
             st3 = st2\<lparr>curveTimer := 0, curveAccel := Vec3 0 0 0\<rparr>;
             bd = (body playerOrb)\<lparr>body_position := Vec3 0 (- 50) 0,
                                   body_velocity := Vec3 0 0 0\<rparr>
         in playerOrb\<lparr>state := st3, body := bd\<rparr>)
      else playerOrb)"

definition onOpponentOrbBounce :: "vec3 \<Rightarrow> vec3 \<Rightarrow> orb \<Rightarrow> orb" where
  "onOpponentOrbBounce pos normal opponentOrb =
     (if vz normal > 0.5 \<and> \<not> returning (state opponentOrb) \<and> \<not> isHeld (state opponentOrb)
      then
        (let st1 = (state opponentOrb)\<lparr>returning := True, returnTimer := 0\<rparr>;
             speed = vlength (velocity st1);
             st2 = (if speed > 0.01
                    then st1\<lparr>velocity :=
                           multiplyScalar (velocity st1) (RETURN_INITIAL_SPEED / speed)\<rparr>
                    else st1);
             st3 = st2\<lparr>curveTimer := 0, curveAccel := Vec3 0 0 0\<rparr>;
             bd = (body opponentOrb)\<lparr>body_position := Vec3 0 (- 50) 0,
                                     body_velocity := Vec3 0 0 0\<rparr>
         in opponentOrb\<lparr>state := st3, body := bd\<rparr>)
      else opponentOrb)"

text \<open>
  The playable volume, as \<open>createPhysicsWorld\<close> builds it: the floor's top face is
  at height 0, the ceiling's bottom face at \<open>ARENA_HEIGHT\<close>, the side walls at
  \<open>\<plusminus> ARENA_WIDTH / 2\<close> and the back walls at \<open>\<plusminus> ARENA_LENGTH / 2\<close>.
\<close>

definition insideArena :: "vec3 \<Rightarrow> bool" where
  "insideArena p \<longleftrightarrow>
     - ARENA_WIDTH / 2 \<le> vx p \<and> vx p \<le> ARENA_WIDTH / 2
     \<and> 0 \<le> vy p \<and> vy p \<le> ARENA_HEIGHT
     \<and> - ARENA_LENGTH / 2 \<le> vz p \<and> vz p \<le> ARENA_LENGTH / 2"

subsection \<open>syncOrbPhysics (physics.js)\<close>

text \<open>A queued wall-bounce event.\<close>

record bounce =
  bounce_pos :: vec3
  bounce_normal :: vec3
  bounce_bodyId :: nat

text \<open>
  The loop \<open>for (let i = bqLen - 1; i >= 0; i--)\<close> over the shared bounce queue. The
  counter of the model is \<open>i + 1\<close>. The loop state is the queue, \<open>bqLen\<close>, the orb
  and a list that records, for every call of \<open>onBounce\<close>, the event passed and the
  orb as it was at the call. The assignment \<open>bounceQueue.length = bqLen\<close> is
  \<open>take bqLen\<close>.
\<close>

primrec bounceLoop ::
  "(vec3 \<Rightarrow> vec3 \<Rightarrow> orb \<Rightarrow> orb) \<Rightarrow> nat \<Rightarrow> nat
    \<Rightarrow> bounce list \<times> nat \<times> orb \<times> (bounce \<times> orb) list
    \<Rightarrow> bounce list \<times> nat \<times> orb \<times> (bounce \<times> orb) list" where
  "bounceLoop onBounce bodyId 0 s = s"
| "bounceLoop onBounce bodyId (Suc i) s =
     (case s of (bounceQueue, bqLen, orb, calls) \<Rightarrow>
        (let bounce = bounceQueue ! i in
         if bounce_bodyId bounce = bodyId
         then
           (let (orb1, calls1) =
                  (if vlength (velocity (state orb)) > 2
                   then (onBounce (bounce_pos bounce) (bounce_normal bounce) orb,
                         calls @ [(bounce, orb)])
                   else (orb, calls));
                bqLen1 = bqLen - 1;
                queue1 = (if i < bqLen1 then bounceQueue[i := bounceQueue ! bqLen1]
                          else bounceQueue);
                queue2 = take bqLen1 queue1
            in bounceLoop onBounce bodyId i (queue2, bqLen1, orb1, calls1))
         else bounceLoop onBounce bodyId i (bounceQueue, bqLen, orb, calls)))"

text \<open>
  The part of \<open>syncOrbPhysics\<close> before the loop: the body's position is clamped into
  the arena, position and velocity are copied to the orb state, and air drag is applied
  to the body's velocity.
\<close>

definition syncBody :: "orb \<Rightarrow> orb" where
  "syncBody orb =
     (let bp = body_position (body orb);
          bv = body_velocity (body orb);
          margin = 0.3;
          bp1 = Vec3 (max (- ARENA_WIDTH / 2 + margin) (min (ARENA_WIDTH / 2 - margin) (vx bp)))
                     (max margin (min (ARENA_HEIGHT - margin) (vy bp)))
                     (max (- ARENA_LENGTH / 2 + margin) (min (ARENA_LENGTH / 2 - margin) (vz bp)))
      in orb\<lparr>state := (state orb)\<lparr>position := bp1, velocity := bv\<rparr>,
              body := (body orb)\<lparr>body_position := bp1,
                                 body_velocity := multiplyScalar bv AIR_DRAG\<rparr>\<rparr>)"

text \<open>
  \<open>syncOrbPhysics(physics, orb, onBounce)\<close>, on \<open>physics.bounceQueue\<close>. It
  returns the queue and the orb as it leaves them, and the record of the calls of
  \<open>onBounce\<close>.
\<close>

definition syncOrbPhysics ::
  "bounce list \<Rightarrow> orb \<Rightarrow> (vec3 \<Rightarrow> vec3 \<Rightarrow> orb \<Rightarrow> orb)
    \<Rightarrow> bounce list \<times> orb \<times> (bounce \<times> orb) list" where
  "syncOrbPhysics bounceQueue orb onBounce =
     (if isHeld (state orb) then (bounceQueue, orb, [])
      else
        (let orb1 = syncBody orb;
             bodyId = body_id (body orb1);
             bqLen = length bounceQueue
         in case bounceLoop onBounce bodyId bqLen (bounceQueue, bqLen, orb1, []) of
              (queue', bqLen', orb', calls) \<Rightarrow> (queue', orb', calls)))"

subsection \<open>Strike zones (strikeZone.js)\<close>

record zone =
  centerX :: real
  centerY :: real
  zWall :: real
  radius :: real
  depth :: real
  lastTriggerTime :: real
  flashTimer :: real

text \<open>
  \<open>checkStrikeZone(zones, zoneName, orbState)\<close>. \<open>zones\<close> is an object indexed
  by name, here a map; \<open>now\<close> is the value that \<open>performance.now()\<close> returns in
  this call. The function returns its result and the zones as it leaves them.
\<close>

definition checkStrikeZone ::
  "(string \<rightharpoonup> zone) \<Rightarrow> string \<Rightarrow> orbState \<Rightarrow> real \<Rightarrow> bool \<times> (string \<rightharpoonup> zone)" where
  "checkStrikeZone zones zoneName orbSt now =
     (case zones zoneName of
        None \<Rightarrow> (False, zones)
      | Some zone \<Rightarrow>
          (let pos = position orbSt;
               speed = vlength (velocity orbSt)
           in if speed < STRIKE_MIN_ORB_SPEED then (False, zones)
              else if isHeld orbSt \<or> recalling orbSt then (False, zones)
              else if now - lastTriggerTime zone < 1000 then (False, zones)
              else
                (let zMin = (if zWall zone < 0 then zWall zone else zWall zone - depth zone);
                     zMax = (if zWall zone < 0 then zWall zone + depth zone else zWall zone)
                 in if vz pos < zMin \<or> vz pos > zMax then (False, zones)
                    else
                      (let dx = vx pos - centerX zone;
                           dy = vy pos - centerY zone;
                           distSq = dx * dx + dy * dy
                       in if distSq \<le> radius zone * radius zone
                          then (True, zones(zoneName \<mapsto>
                                  zone\<lparr>lastTriggerTime := now, flashTimer := 0.3\<rparr>))
                          else (False, zones)))))"

text \<open>
  A sequence of calls, each with its zone name, the orb state it is given and its
  \<open>performance.now()\<close>; the results of the calls, in order. Nothing else in the
  program writes \<open>lastTriggerTime\<close>.
\<close>

fun checkStrikeZoneCalls ::
  "(string \<rightharpoonup> zone) \<Rightarrow> (string \<times> orbState \<times> real) list \<Rightarrow> bool list" where
  "checkStrikeZoneCalls zones [] = []"
| "checkStrikeZoneCalls zones ((zoneName, orbSt, now) # calls) =
     (case checkStrikeZone zones zoneName orbSt now of
        (result, zones') \<Rightarrow> result # checkStrikeZoneCalls zones' calls)"

text \<open>The zones as \<open>createStrikeZones\<close> makes them.\<close>

definition createStrikeZones :: "string \<rightharpoonup> zone" where
  "createStrikeZones =
     [''player'' \<mapsto> \<lparr>centerX = 0, centerY = 1.0, zWall = ARENA_LENGTH / 2, radius = 1.0,
                       depth = 2.0, lastTriggerTime = 0, flashTimer = 0\<rparr>,
      ''opponent'' \<mapsto> \<lparr>centerX = 0, centerY = 1.0, zWall = - (ARENA_LENGTH / 2), radius = 1.0,
                         depth = 2.0, lastTriggerTime = 0, flashTimer = 0\<rparr>]"

subsection \<open>Example states\<close>

text \<open>
  A raised shield with one queued contact, 100 ms after the raise, of the body with id 7,
  which flies at speed 20 towards the shield; and the same with a second queued contact
  of another body.
\<close>

definition ex_event :: reflection where
  "ex_event = \<lparr>orbBody = 7, timestamp = 1100\<rparr>"

definition ex_stray_event :: reflection where
  "ex_stray_event = \<lparr>orbBody = 8, timestamp = 1101\<rparr>"

definition ex_shield :: shield where
  "ex_shield = \<lparr>reflections = [ex_event],
                 shield_state = \<lparr>active = True, raiseTime = 1000, flashTimer = 0\<rparr>,
                 mesh_rotation_x = 0, mesh_rotation_y = 0\<rparr>"

definition ex_orbState :: orbState where
  "ex_orbState = \<lparr>position = Vec3 0 1 20, velocity = Vec3 0 0 20, isHeld = False,
                   owner = opponent, lastDeflectedBy = None, strikeStacks = 0,
                   throwTime = 0, recalling = False, stallTimer = 0, returning = False,
                   returnTimer = 0, curveAccel = Vec3 0 0 0, curveTimer = 0\<rparr>"

definition ex_body :: cannonBody where
  "ex_body = \<lparr>body_id = 7, body_position = Vec3 0 1 20, body_velocity = Vec3 0 0 20,
               body_angularVelocity = Vec3 0 0 0, body_linearDamping = 0.01\<rparr>"

definition ex_shield2 :: shield where
  "ex_shield2 = ex_shield\<lparr>reflections := [ex_stray_event, ex_event]\<rparr>"

definition ex_orb :: orb where
  "ex_orb = \<lparr>state = ex_orbState, body = ex_body\<rparr>"

definition ex_game :: gameState where
  "ex_game = \<lparr>playerScore = 0, opponentScore = 0, round' = 1, playerRounds = 0,
               opponentRounds = 0, matchPhase = playing, countdownTimer = 0,
               countdownLast = 1, resetTimer = 0, playerPos = Vec3 0 1.7 28,
               playerArmed = True, blocking = True, cameraYaw = 0, cameraPitch = 0,
               dashActive = False, throws = 0, throwTime = 0, firstThrow = False,
               discRecalling = False, onGround = True, shieldEnergy = 1,
               parryFlashTimer = 0, lastPlayerHitTime = 0, lastOppHitTime = 0,
               hitFlashTimer = 0, shakeTimer = 0, multiplayerActive = False\<rparr>"

text \<open>
  A bounce queue with two events of body 7 around one of body 8, and the orb of body 7
  moving at speed 1.
\<close>

definition ex_bounce7 :: bounce where
  "ex_bounce7 = \<lparr>bounce_pos = Vec3 0 1 (- 29.7), bounce_normal = Vec3 0 0 (- 1),
                  bounce_bodyId = 7\<rparr>"

definition ex_bounce8 :: bounce where
  "ex_bounce8 = \<lparr>bounce_pos = Vec3 4.7 1 0, bounce_normal = Vec3 1 0 0, bounce_bodyId = 8\<rparr>"

definition ex_queue :: "bounce list" where
  "ex_queue = [ex_bounce7, ex_bounce8, ex_bounce7]"

definition ex_slow_orb :: orb where
  "ex_slow_orb = ex_orb\<lparr>body := ex_body\<lparr>body_velocity := Vec3 0 0 1\<rparr>\<rparr>"

text \<open>
  The player's orb dwelling inside the opponent-side strike zone at speed 20, checked at
  1500 ms, 2000 ms and 2600 ms.
\<close>

definition ex_strike_orbState :: orbState where
  "ex_strike_orbState = ex_orbState\<lparr>position := Vec3 0 1 (- 29), velocity := Vec3 0 0 (- 20),
                                      owner := player\<rparr>"

definition ex_calls :: "(string \<times> orbState \<times> real) list" where
  "ex_calls = [(''opponent'', ex_strike_orbState, 1500),
               (''opponent'', ex_strike_orbState, 2000),
               (''opponent'', ex_strike_orbState, 2600)]"

text \<open>
  A match that is started, counted down, and in which the player scores six times, each
  score followed by the reset delay.
\<close>

definition ex_events :: "matchEvent list" where
  "ex_events =
     [Start, Frame 3 None, GoTimeout,
      Frame 0.016 (Some player), Frame 1.2 None, Frame 0.016 (Some player), Frame 1.2 None,
      Frame 0.016 (Some player), Frame 1.2 None, Frame 0.016 (Some player), Frame 1.2 None,
      Frame 0.016 (Some player), Frame 1.2 None, Frame 0.016 (Some player), Frame 1.2 None]"

text \<open>
  The player, armed and on the ground, with the orb in hand and the throw button
  pressed; and the player holding the block button down from a full shield.
\<close>

definition ex_throw_input :: inputState where
  "ex_throw_input = \<lparr>inputState.blocking = False, throwTriggered = True\<rparr>"

definition ex_block_input :: inputState where
  "ex_block_input = \<lparr>inputState.blocking = True, throwTriggered = False\<rparr>"

definition ex_ready_game :: gameState where
  "ex_ready_game = ex_game\<lparr>gameState.blocking := False\<rparr>"

definition ex_held_orb :: orb where
  "ex_held_orb = \<lparr>state = ex_orbState\<lparr>position := PLAYER_SPAWN, velocity := Vec3 0 0 0,
                                        isHeld := True, owner := player\<rparr>,
                   body = ex_body\<lparr>body_id := 3, body_position := PLAYER_SPAWN,
                                  body_velocity := Vec3 0 0 0\<rparr>\<rparr>"

text \<open>
  A frame of the playing phase in single-player mode, the player leading 6 to 0 in the
  first round. The player's orb, thrown 1.2 s ago, is half a unit from the opponent, and
  the opponent's orb, thrown 1.5 s ago, is half a unit from the player.
\<close>

definition ex_hit_game :: gameState where
  "ex_hit_game = ex_game\<lparr>playerScore := 6, playerArmed := False, gameState.blocking := False\<rparr>"

definition ex_opponent :: opponentState where
  "ex_opponent = \<lparr>alive = True, dissolving = False, dissolveTimer = 0,
                   opponent_position = Vec3 0 1.7 (- 27)\<rparr>"

definition ex_player_orb_in_flight :: orb where
  "ex_player_orb_in_flight =
     \<lparr>state = ex_orbState\<lparr>position := Vec3 0 1.7 (- 26.5), velocity := Vec3 0 0 (- 45),
                           owner := player, throwTime := 18800\<rparr>,
      body = ex_body\<lparr>body_id := 3, body_position := Vec3 0 1.7 (- 26.5),
                     body_velocity := Vec3 0 0 (- 45)\<rparr>\<rparr>"

definition ex_opponent_orb_in_flight :: orb where
  "ex_opponent_orb_in_flight =
     \<lparr>state = ex_orbState\<lparr>position := Vec3 0 1.7 27.5, velocity := Vec3 0 0 20,
                           owner := opponent, throwTime := 18500\<rparr>,
      body = ex_body\<lparr>body_position := Vec3 0 1.7 27.5\<rparr>\<rparr>"

section \<open>Theorems\<close>

subsection \<open>Vectors\<close>

lemma vlength_nonneg: "0 \<le> vlength v"
  by (simp add: vlength_def)

lemma vlength_multiplyScalar: "vlength (multiplyScalar v s) = \<bar>s\<bar> * vlength v"
proof -
  have "vx v * s * (vx v * s) + vy v * s * (vy v * s) + vz v * s * (vz v * s)
        = s\<^sup>2 * (vx v * vx v + vy v * vy v + vz v * vz v)"
    by (simp add: power2_eq_square algebra_simps)
  then show ?thesis
    by (simp add: vlength_def multiplyScalar_def real_sqrt_mult)
qed

lemma vlength_normalize: "vlength v \<noteq> 0 \<Longrightarrow> vlength (vnormalize v) = 1"
  using vlength_nonneg [of v]
  by (simp add: vnormalize_def Let_def vlength_multiplyScalar)

lemma normalize_zero: "vlength v = 0 \<Longrightarrow> vnormalize v = v"
  by (cases v) (simp add: vnormalize_def multiplyScalar_def)

lemma vlength_applyEulerForward: "vlength (applyEulerForward p w) = 1"
proof -
  have sw: "sin w * sin w + cos w * cos w = 1"
    using sin_cos_squared_add [of w] by (simp add: power2_eq_square)
  have sp: "sin p * sin p + cos p * cos p = 1"
    using sin_cos_squared_add [of p] by (simp add: power2_eq_square)
  have "sin w * cos p * (sin w * cos p) + sin p * sin p
          + cos w * cos p * (cos w * cos p)
        = (sin w * sin w + cos w * cos w) * (cos p * cos p) + sin p * sin p"
    by (simp only: algebra_simps)
  also have "\<dots> = 1"
    using sp by (simp only: sw mult_1)
  finally show ?thesis
    by (simp add: vlength_def applyEulerForward_def)
qed

lemma vlength_sq: "vlength v * vlength v = vx v * vx v + vy v * vy v + vz v * vz v"
  by (simp add: vlength_def) 

lemma vlength_zero_iff: "vlength v = 0 \<longleftrightarrow> v = Vec3 0 0 0"
proof
  assume "vlength v = 0"
  then have "vx v * vx v + vy v * vy v + vz v * vz v = 0"
    using vlength_sq [of v] by simp
  then have "vx v = 0 \<and> vy v = 0 \<and> vz v = 0"
    by (smt (verit) mult_eq_0_iff zero_le_square sum_squares_eq_zero_iff)
  then show "v = Vec3 0 0 0" by (cases v) simp
next
  assume "v = Vec3 0 0 0" then show "vlength v = 0" by (simp add: vlength_def)
qed

lemma vlength_reflect:
  assumes "vlength n = 1"
  shows "vlength (vadd (multiplyScalar n (- 2 * vdot v n)) v) = vlength v"
proof -
  have n1: "vx n * vx n + vy n * vy n + vz n * vz n = 1"
    using vlength_sq [of n] assms by simp
  show ?thesis
    unfolding vlength_def
    apply (rule arg_cong [where f = sqrt])
    using n1 apply (simp add: vadd_def multiplyScalar_def vdot_def)
    apply algebra
    done
qed

lemma vlength_redirect:
  assumes "0 \<le> k" and "vlength d = vlength v" 
  shows "vlength (multiplyScalar (vnormalize d) (vlength v * k)) = vlength v * k"
proof (cases "vlength v = 0")
  case True
  with assms show ?thesis by (simp add: vlength_multiplyScalar)
next
  case False
  with assms have "vlength (vnormalize d) = 1" by (simp add: vlength_normalize)
  with assms vlength_nonneg [of v] show ?thesis
    by (simp add: vlength_multiplyScalar abs_mult)
qed

lemma vlength_aimed:
  assumes "0 \<le> k" and "vlength a \<noteq> 0"
  shows "vlength (multiplyScalar (vnormalize a) (s * k)) = \<bar>s\<bar> * k"
  using assms by (simp add: vlength_multiplyScalar vlength_normalize abs_mult)

subsection \<open>Sub-stepping\<close>

lemma stepLoop_funpow:
  "stepLoop step subDt subSteps i world = ((step subDt) ^^ (subSteps - i)) world"
proof (induction step subDt subSteps i world rule: stepLoop.induct)
  case (1 step subDt subSteps i world)
  show ?case
  proof (cases "i < subSteps")
    case True
    then have "subSteps - i = Suc (subSteps - (i + 1))" by simp
    with True "1.IH" show ?thesis
      by (simp add: funpow_swap1 stepLoop.simps [of step subDt subSteps i world])
  next
    case False
    then show ?thesis by (simp add: stepLoop.simps [of step subDt subSteps i world])
  qed
qed

text \<open>
  C8. One logical physics step with fastest-active-orb speed \<open>s\<close> calls the engine's
  \<open>step\<close> exactly three times if \<open>s > 30\<close>, exactly twice if \<open>15 < s \<le> 30\<close> and
  exactly once otherwise, each call advancing the world by the logical timestep divided
  by that count. The second conjunct reads the calls off a world that records them.
\<close>

theorem stepPhysics_substeps:
  "stepPhysics step s dt world =
     (if 30 < s then step (dt / 3) (step (dt / 3) (step (dt / 3) world))
      else if 15 < s then step (dt / 2) (step (dt / 2) world)
      else step dt world)
   \<and> stepPhysics (\<lambda>d calls. calls @ [d]) s dt [] =
     (if 30 < s then [dt / 3, dt / 3, dt / 3]
      else if 15 < s then [dt / 2, dt / 2]
      else [dt])"
  by (simp add: stepPhysics_def stepLoop_funpow numeral_3_eq_3 numeral_2_eq_2)

subsection \<open>Mirroring\<close>

text \<open>
  C5. Mirroring a state snapshot twice gives the snapshot back: the depth-axis fields
  \<open>pz\<close>, \<open>orbZ\<close> and \<open>orbVz\<close> are negated twice, every other field is copied,
  and the yaw is the original yaw plus two half turns, so it is equal to the original
  modulo \<open>2\<pi>\<close>.
\<close>

theorem mirrorState_involution:
  "mirrorState (mirrorState data) = data\<lparr>yaw := yaw data + 2 * pi\<rparr>
   \<and> (\<exists>k::int. yaw (mirrorState (mirrorState data)) = yaw data + 2 * pi * of_int k)
   \<and> sin (yaw (mirrorState (mirrorState data))) = sin (yaw data)
   \<and> cos (yaw (mirrorState (mirrorState data))) = cos (yaw data)"
proof -
  have eq: "mirrorState (mirrorState data) = data\<lparr>yaw := yaw data + 2 * pi\<rparr>"
    by (simp add: mirrorState_def)
  have "yaw (mirrorState (mirrorState data)) = yaw data + 2 * pi * of_int 1"
    by (simp add: mirrorState_def)
  then have ex: "\<exists>k::int. yaw (mirrorState (mirrorState data)) = yaw data + 2 * pi * of_int k"
    by blast
  have "yaw (mirrorState (mirrorState data)) = yaw data + 2 * pi"
    by (simp add: mirrorState_def)
  then have sc: "sin (yaw (mirrorState (mirrorState data))) = sin (yaw data)
      \<and> cos (yaw (mirrorState (mirrorState data))) = cos (yaw data)"
    by (simp only: sin_periodic cos_periodic)
  show ?thesis
    using eq ex sc by blast
qed

subsection \<open>Shield reflection\<close>

lemma processReflection_matched:
  assumes "reflections sh = ev # rest" and "orbBody ev = body_id bd"
  shows "\<exists>R sh'. processReflection sh st bd aim =
     (Some \<lparr>isParry = (timestamp ev - raiseTime (shield_state sh) \<le> 150),
            speed = vlength (body_velocity bd) *
              (if timestamp ev - raiseTime (shield_state sh) \<le> 150 then 1.6 else 1.3)\<rparr>,
      sh', st\<lparr>velocity := R\<rparr>, bd\<lparr>body_velocity := R\<rparr>)
    \<and> R = (case aim of
         Some a \<Rightarrow> multiplyScalar (vnormalize a) (vlength (body_velocity bd) *
              (if timestamp ev - raiseTime (shield_state sh) \<le> 150 then 1.6 else 1.3))
       | None \<Rightarrow> multiplyScalar (vnormalize (vadd (multiplyScalar
                (applyEulerForward (mesh_rotation_x sh) (mesh_rotation_y sh))
                (- 2 * vdot (body_velocity bd) (applyEulerForward (mesh_rotation_x sh) (mesh_rotation_y sh))))
                (body_velocity bd)))
             (vlength (body_velocity bd) *
              (if timestamp ev - raiseTime (shield_state sh) \<le> 150 then 1.6 else 1.3)))"
  using assms
  by (simp add: processReflection_def Let_def PARRY_WINDOW_MS_def PARRY_SPEED_MULT_def
        REFLECT_SPEED_MULT_def split: option.splits)

text \<open>
  C1. A reflection event is processed when it is the head of the shield's queue and its
  body is the tracked orb's body. The contact is then a parry if and only if the event's
  timestamp minus the shield's raise timestamp is at most 150 ms; the speed reported, the
  speed of the orb state's new velocity and the speed of the body's new velocity all
  equal the incoming speed (the length of the body's velocity) times 1.6 for a parry and
  times 1.3 otherwise. The aim direction, when one is supplied, is not the zero vector:
  the only caller that supplies one passes the camera's forward vector, of length 1
  (\<open>vlength_applyEulerForward\<close>).
\<close>

theorem processReflection_classification:
  assumes queue: "reflections sh = ev # rest"
    and tracked: "orbBody ev = body_id bd"
    and aim: "case aim of None \<Rightarrow> True | Some a \<Rightarrow> vlength a \<noteq> 0"
    and run: "processReflection sh st bd aim = (res, sh', st', bd')"
  shows "\<exists>r. res = Some r
      \<and> (isParry r \<longleftrightarrow> timestamp ev - raiseTime (shield_state sh) \<le> 150)
      \<and> speed r = vlength (body_velocity bd) * (if isParry r then 1.6 else 1.3)
      \<and> vlength (velocity st') = vlength (body_velocity bd) * (if isParry r then 1.6 else 1.3)
      \<and> vlength (body_velocity bd') = vlength (body_velocity bd) * (if isParry r then 1.6 else 1.3)"
proof -
  define m :: real where "m = (if timestamp ev - raiseTime (shield_state sh) \<le> 150 then 1.6 else 1.3)"
  have m0: "0 \<le> m" by (simp add: m_def)
  obtain R sh1 where pr: "processReflection sh st bd aim =
     (Some \<lparr>isParry = (timestamp ev - raiseTime (shield_state sh) \<le> 150),
            speed = vlength (body_velocity bd) * m\<rparr>,
      sh1, st\<lparr>velocity := R\<rparr>, bd\<lparr>body_velocity := R\<rparr>)"
    and R: "R = (case aim of
         Some a \<Rightarrow> multiplyScalar (vnormalize a) (vlength (body_velocity bd) * m)
       | None \<Rightarrow> multiplyScalar (vnormalize (vadd (multiplyScalar
                (applyEulerForward (mesh_rotation_x sh) (mesh_rotation_y sh))
                (- 2 * vdot (body_velocity bd) (applyEulerForward (mesh_rotation_x sh) (mesh_rotation_y sh))))
                (body_velocity bd)))
             (vlength (body_velocity bd) * m))"
    using processReflection_matched [OF queue tracked, of st aim] unfolding m_def by blast
  have len: "vlength R = vlength (body_velocity bd) * m"
  proof (cases aim)
    case None
    then show ?thesis
      using R vlength_redirect [OF m0 vlength_reflect [OF vlength_applyEulerForward]]
      by simp
  next
    case (Some a)
    then show ?thesis
      using R aim vlength_aimed [OF m0, of a "vlength (body_velocity bd)"] vlength_nonneg [of "body_velocity bd"]
      by simp
  qed
  from pr run len show ?thesis
    by (auto simp: m_def)
qed

theorem processReflection_classification_witness:
  "reflections ex_shield = [ex_event] \<and> orbBody ex_event = body_id ex_body
   \<and> vlength (Vec3 0 0 (- 1)) \<noteq> 0
   \<and> (\<exists>r. fst (processReflection ex_shield ex_orbState ex_body (Some (Vec3 0 0 (- 1)))) = Some r
          \<and> isParry r \<and> speed r = 32)
   \<and> vlength (velocity (fst (snd (snd
          (processReflection ex_shield ex_orbState ex_body (Some (Vec3 0 0 (- 1)))))))) = 32"
proof -
  have q: "reflections ex_shield = [ex_event]"
    by (simp add: ex_shield_def)
  have t: "orbBody ex_event = body_id ex_body"
    by (simp add: ex_event_def ex_body_def)
  have a: "case Some (Vec3 0 0 (- 1)) of None \<Rightarrow> True | Some a \<Rightarrow> vlength a \<noteq> 0"
    by (simp add: vlength_def)
  have r: "processReflection ex_shield ex_orbState ex_body (Some (Vec3 0 0 (- 1))) =
      (fst (processReflection ex_shield ex_orbState ex_body (Some (Vec3 0 0 (- 1)))),
       fst (snd (processReflection ex_shield ex_orbState ex_body (Some (Vec3 0 0 (- 1))))),
       fst (snd (snd (processReflection ex_shield ex_orbState ex_body (Some (Vec3 0 0 (- 1)))))),
       snd (snd (snd (processReflection ex_shield ex_orbState ex_body (Some (Vec3 0 0 (- 1)))))))"
    by simp
  have v: "vlength (body_velocity ex_body) = 20"
    by (simp add: ex_body_def vlength_def)
  have w: "timestamp ex_event - raiseTime (shield_state ex_shield) \<le> 150"
    by (simp add: ex_event_def ex_shield_def)
  show ?thesis
    using processReflection_classification [OF q t a r] q t v w
    by (auto simp: vlength_def)
qed

lemma processReflection_queue:
  "reflections (fst (snd (processReflection sh st bd aim))) = tl (reflections sh)"
  by (simp add: processReflection_def Let_def split: list.splits option.splits)

lemma processReflection_mismatch:
  "reflections sh = ev # rest \<Longrightarrow> orbBody ev \<noteq> body_id bd \<Longrightarrow>
   processReflection sh st bd aim = (None, sh\<lparr>reflections := rest\<rparr>, st, bd)"
  by (simp add: processReflection_def Let_def)

lemma reflectionIteration_queue:
  "reflectionIteration aimDir (g, sh, ob) = (r, g', sh', ob') \<Longrightarrow>
   reflections sh' = tl (reflections sh)"
  using processReflection_queue [of sh "state ob" "body ob" "Some aimDir"]
  by (auto simp: reflectionIteration_def split: prod.splits option.splits)

lemma drainReflections_unfold:
  "reflections sh = ev # rest \<Longrightarrow>
   reflectionIteration aimDir (g, sh, ob) = (r, s1) \<Longrightarrow>
   drainReflections aimDir s1 = (rs, s2) \<Longrightarrow>
   drainReflections aimDir (g, sh, ob) = (r # rs, s2)"
  by (subst drainReflections.simps) simp

lemma drainReflections_empty:
  "reflections sh = [] \<Longrightarrow> drainReflections aimDir (g, sh, ob) = ([], g, sh, ob)"
  by (subst drainReflections.simps) simp

lemma drainReflections_calls:
  "drainReflections aimDir (g, sh, ob) = (results, g', sh', ob') \<Longrightarrow>
   length results = length (reflections sh) \<and> reflections sh' = []"
proof (induction "reflections sh" arbitrary: g sh ob results g' sh' ob')
  case Nil
  then show ?case
    using drainReflections_empty [of sh aimDir g ob] by simp
next
  case (Cons ev rest)
  obtain r g1 sh1 ob1 where it: "reflectionIteration aimDir (g, sh, ob) = (r, g1, sh1, ob1)"
    by (metis prod_cases4)
  obtain rs g2 sh2 ob2 where dr: "drainReflections aimDir (g1, sh1, ob1) = (rs, g2, sh2, ob2)"
    by (metis prod_cases4)
  have q: "reflections sh = ev # rest"
    using Cons.hyps(2) by simp
  have q1: "rest = reflections sh1"
    using reflectionIteration_queue [OF it] q by simp
  have ih: "length rs = length (reflections sh1) \<and> reflections sh2 = []"
    using Cons.hyps(1) [OF q1 dr] .
  have "drainReflections aimDir (g, sh, ob) = (r # rs, g2, sh2, ob2)"
    using drainReflections_unfold [OF q it dr] .
  with Cons.prems have "results = r # rs" "sh' = sh2"
    by simp_all
  with ih q q1 show ?case by simp
qed

lemma handleShieldReflections_calls:
  "handleShieldReflections (g, sh, ob) = (results, gF, shF, obF) \<Longrightarrow>
   length results = length (reflections sh) \<and> reflections shF = []"
  unfolding handleShieldReflections_def prod.case
  by (rule drainReflections_calls)

lemma drainReflections_iterate:
  "((\<lambda>(rs, s). case reflectionIteration aimDir s of (r, s') \<Rightarrow> (rs @ [r], s'))
       ^^ length (reflections sh)) (acc, g, sh, ob)
   = (acc @ fst (drainReflections aimDir (g, sh, ob)), snd (drainReflections aimDir (g, sh, ob)))"
proof (induction "reflections sh" arbitrary: acc g sh ob)
  case Nil
  then show ?case
    using drainReflections_empty [of sh aimDir g ob] by simp
next
  case (Cons ev rest)
  obtain r g1 sh1 ob1 where it: "reflectionIteration aimDir (g, sh, ob) = (r, g1, sh1, ob1)"
    by (metis prod_cases4)
  obtain rs s2 where dr: "drainReflections aimDir (g1, sh1, ob1) = (rs, s2)"
    by (cases "drainReflections aimDir (g1, sh1, ob1)") auto
  have q: "reflections sh = ev # rest"
    using Cons.hyps(2) by simp
  have q1: "rest = reflections sh1"
    using reflectionIteration_queue [OF it] q by simp
  have whole: "drainReflections aimDir (g, sh, ob) = (r # rs, s2)"
    using drainReflections_unfold [OF q it dr] .
  have len: "length (reflections sh) = Suc (length (reflections sh1))"
    using q q1 by simp
  have "((\<lambda>(rs, s). case reflectionIteration aimDir s of (r, s') \<Rightarrow> (rs @ [r], s'))
       ^^ length (reflections sh)) (acc, g, sh, ob)
      = ((\<lambda>(rs, s). case reflectionIteration aimDir s of (r, s') \<Rightarrow> (rs @ [r], s'))
       ^^ length (reflections sh1)) (acc @ [r], g1, sh1, ob1)"
    unfolding len funpow_Suc_right by (simp add: it)
  also have "\<dots> = ((acc @ [r]) @ fst (drainReflections aimDir (g1, sh1, ob1)),
                     snd (drainReflections aimDir (g1, sh1, ob1)))"
    by (rule Cons.hyps(1) [OF q1])
  also have "\<dots> = (acc @ fst (drainReflections aimDir (g, sh, ob)),
                     snd (drainReflections aimDir (g, sh, ob)))"
    by (simp add: dr whole)
  finally show ?case .
qed

lemma handleShieldReflections_iterate:
  "handleShieldReflections (g, sh, ob)
   = ((\<lambda>(rs, s). case reflectionIteration (applyEulerForward (cameraPitch g) (cameraYaw g)) s of
                      (r, s') \<Rightarrow> (rs @ [r], s'))
        ^^ length (reflections sh)) ([], g, sh, ob)"
  unfolding handleShieldReflections_def prod.case
  by (simp add: drainReflections_iterate)

lemma reflectionIteration_call:
  "fst (reflectionIteration aimDir (g, sh, ob))
     = fst (processReflection sh (state ob) (body ob) (Some aimDir))
   \<and> fst (snd (snd (reflectionIteration aimDir (g, sh, ob))))
     = fst (snd (processReflection sh (state ob) (body ob) (Some aimDir)))
   \<and> velocity (state (snd (snd (snd (reflectionIteration aimDir (g, sh, ob))))))
     = velocity (fst (snd (snd (processReflection sh (state ob) (body ob) (Some aimDir)))))
   \<and> body (snd (snd (snd (reflectionIteration aimDir (g, sh, ob)))))
     = snd (snd (snd (processReflection sh (state ob) (body ob) (Some aimDir))))"
  by (auto simp: reflectionIteration_def split: prod.splits option.splits)

lemma ex_first_iteration:
  "reflectionIteration (Vec3 0 0 (- 1)) (ex_game, ex_shield2, ex_orb)
   = (None, ex_game, ex_shield, ex_orb)"
  by (simp add: reflectionIteration_def processReflection_def ex_shield2_def ex_shield_def
        ex_orb_def ex_body_def ex_stray_event_def Let_def)

lemma ex_second_iteration:
  "fst (reflectionIteration (Vec3 0 0 (- 1)) (ex_game, ex_shield, ex_orb))
   = Some \<lparr>isParry = True, speed = 32\<rparr>"
  by (simp add: reflectionIteration_def processReflection_def ex_shield_def ex_event_def
        ex_orb_def ex_body_def Let_def vlength_def PARRY_WINDOW_MS_def PARRY_SPEED_MULT_def
        split: prod.splits)

text \<open>
  C10. A call of \<open>processReflection\<close> on a non-empty queue removes exactly the head
  of the queue. When the head's body is not the tracked orb's body, the call returns
  \<open>null\<close> and leaves the orb state and the orb body, hence both velocities, as they
  were. The loop of \<open>handleShieldReflections\<close> is the loop body iterated exactly as many
  times as the queue was long, starting from the state at entry; each run of the loop body
  is one call of \<open>processReflection\<close> on the current shield and orb with the camera's
  aim direction, whose result is the one recorded and whose shield, orb velocity and orb
  body are the ones carried on. The loop therefore ends after exactly as many calls as the
  queue was long, with the queue empty.
\<close>

theorem processReflection_fifo:
  assumes nonempty: "reflections sh \<noteq> []"
    and run: "processReflection sh st bd aim = (res, sh', st', bd')"
    and drain: "handleShieldReflections (g, sh, ob) = (results, gF, shF, obF)"
  shows "reflections sh' = tl (reflections sh)
    \<and> length (reflections sh') + 1 = length (reflections sh)
    \<and> (orbBody (hd (reflections sh)) \<noteq> body_id bd \<longrightarrow>
          res = None \<and> velocity st' = velocity st \<and> body_velocity bd' = body_velocity bd
          \<and> st' = st \<and> bd' = bd)
    \<and> length results = length (reflections sh) \<and> reflections shF = []
    \<and> (results, gF, shF, obF)
        = ((\<lambda>(rs, s). case reflectionIteration (applyEulerForward (cameraPitch g) (cameraYaw g)) s of
                           (r, s') \<Rightarrow> (rs @ [r], s'))
             ^^ length (reflections sh)) ([], g, sh, ob)
    \<and> fst (reflectionIteration aimDir (g1, sh1, ob1))
        = fst (processReflection sh1 (state ob1) (body ob1) (Some aimDir))
    \<and> fst (snd (snd (reflectionIteration aimDir (g1, sh1, ob1))))
        = fst (snd (processReflection sh1 (state ob1) (body ob1) (Some aimDir)))
    \<and> velocity (state (snd (snd (snd (reflectionIteration aimDir (g1, sh1, ob1))))))
        = velocity (fst (snd (snd (processReflection sh1 (state ob1) (body ob1) (Some aimDir)))))
    \<and> body (snd (snd (snd (reflectionIteration aimDir (g1, sh1, ob1)))))
        = snd (snd (snd (processReflection sh1 (state ob1) (body ob1) (Some aimDir))))"
proof -
  obtain ev rest where q: "reflections sh = ev # rest"
    using nonempty by (cases "reflections sh") auto
  have a: "reflections sh' = tl (reflections sh)"
    using processReflection_queue [of sh st bd aim] run by simp
  then have a': "length (reflections sh') + 1 = length (reflections sh)"
    using q by simp
  have b: "orbBody (hd (reflections sh)) \<noteq> body_id bd \<longrightarrow>
          res = None \<and> velocity st' = velocity st \<and> body_velocity bd' = body_velocity bd
          \<and> st' = st \<and> bd' = bd"
  proof
    assume "orbBody (hd (reflections sh)) \<noteq> body_id bd"
    then have "orbBody ev \<noteq> body_id bd" using q by simp
    from processReflection_mismatch [OF q this, of st aim] run
    show "res = None \<and> velocity st' = velocity st \<and> body_velocity bd' = body_velocity bd
          \<and> st' = st \<and> bd' = bd" by simp
  qed
  note c = handleShieldReflections_calls [OF drain]
  note d = handleShieldReflections_iterate [of g sh ob, unfolded drain]
  note e = reflectionIteration_call [of aimDir g1 sh1 ob1]
  from a a' b c d e show ?thesis by blast
qed

theorem processReflection_fifo_witness:
  "reflections ex_shield2 \<noteq> []
   \<and> orbBody (hd (reflections ex_shield2)) \<noteq> body_id ex_body
   \<and> fst (processReflection ex_shield2 ex_orbState ex_body None) = None
   \<and> reflections (fst (snd (processReflection ex_shield2 ex_orbState ex_body None))) = [ex_event]
   \<and> length (fst (handleShieldReflections (ex_game, ex_shield2, ex_orb))) = 2
   \<and> fst (handleShieldReflections (ex_game, ex_shield2, ex_orb))
       = [None, Some \<lparr>isParry = True, speed = 32\<rparr>]"
proof -
  have ne: "reflections ex_shield2 \<noteq> []"
    by (simp add: ex_shield2_def)
  have stray: "orbBody (hd (reflections ex_shield2)) \<noteq> body_id ex_body"
    by (simp add: ex_shield2_def ex_stray_event_def ex_body_def)
  have run: "processReflection ex_shield2 ex_orbState ex_body None =
      (fst (processReflection ex_shield2 ex_orbState ex_body None),
       fst (snd (processReflection ex_shield2 ex_orbState ex_body None)),
       fst (snd (snd (processReflection ex_shield2 ex_orbState ex_body None))),
       snd (snd (snd (processReflection ex_shield2 ex_orbState ex_body None))))"
    by simp
  have drain: "handleShieldReflections (ex_game, ex_shield2, ex_orb) =
      (fst (handleShieldReflections (ex_game, ex_shield2, ex_orb)),
       fst (snd (handleShieldReflections (ex_game, ex_shield2, ex_orb))),
       fst (snd (snd (handleShieldReflections (ex_game, ex_shield2, ex_orb)))),
       snd (snd (snd (handleShieldReflections (ex_game, ex_shield2, ex_orb)))))"
    by simp
  have q: "reflections ex_shield2 = [ex_stray_event, ex_event]"
    by (simp add: ex_shield2_def)
  have aim: "applyEulerForward (cameraPitch ex_game) (cameraYaw ex_game) = Vec3 0 0 (- 1)"
    by (simp add: applyEulerForward_def ex_game_def)
  have two: "length (reflections ex_shield2) = Suc (Suc 0)"
    by (simp add: q)
  note t = processReflection_fifo [OF ne run drain, of "Vec3 0 0 (- 1)" ex_game ex_shield2 ex_orb]
  have it: "handleShieldReflections (ex_game, ex_shield2, ex_orb)
      = ((\<lambda>(rs, s). case reflectionIteration (Vec3 0 0 (- 1)) s of (r, s') \<Rightarrow> (rs @ [r], s'))
           ^^ Suc (Suc 0)) ([], ex_game, ex_shield2, ex_orb)"
    using t unfolding aim two drain [symmetric] by blast
  have res: "fst (handleShieldReflections (ex_game, ex_shield2, ex_orb))
       = [None, Some \<lparr>isParry = True, speed = 32\<rparr>]"
    unfolding it
    by (simp add: ex_first_iteration ex_second_iteration case_prod_beta)
  show ?thesis
    using t ne stray q res by simp
qed

subsection \<open>Bounce events\<close>

lemma bounceLoop_Suc:
  "bounceLoop f bid (Suc i) (q, n, ob, calls) =
     (if bounce_bodyId (q ! i) = bid
      then bounceLoop f bid i
             (take (n - 1) (if i < n - 1 then q[i := q ! (n - 1)] else q), n - 1,
              (if 2 < vlength (velocity (state ob))
               then f (bounce_pos (q ! i)) (bounce_normal (q ! i)) ob else ob),
              (if 2 < vlength (velocity (state ob)) then calls @ [(q ! i, ob)] else calls))
      else bounceLoop f bid i (q, n, ob, calls))"
  by (simp add: Let_def)

lemma bounceLoop_calls:
  "\<forall>c \<in> set calls. 2 < vlength (velocity (state (snd c))) \<and> bounce_bodyId (fst c) = bid \<Longrightarrow>
   \<forall>c \<in> set (snd (snd (snd (bounceLoop f bid k (q, n, ob, calls))))).
      2 < vlength (velocity (state (snd c))) \<and> bounce_bodyId (fst c) = bid"
proof (induction k arbitrary: q n ob calls)
  case 0
  then show ?case by simp
next
  case (Suc i)
  show ?case
  proof (cases "bounce_bodyId (q ! i) = bid")
    case False
    then show ?thesis
      using Suc.IH [OF Suc.prems] by (simp add: bounceLoop_Suc del: bounceLoop.simps)
  next
    case True
    show ?thesis
    proof (cases "2 < vlength (velocity (state ob))")
      case fast: True
      have "\<forall>c \<in> set (calls @ [(q ! i, ob)]).
              2 < vlength (velocity (state (snd c))) \<and> bounce_bodyId (fst c) = bid"
        using Suc.prems True fast by simp
      from Suc.IH [OF this] True fast show ?thesis
        by (simp add: bounceLoop_Suc del: bounceLoop.simps)
    next
      case slow: False
      from Suc.IH [OF Suc.prems] True slow show ?thesis
        by (simp add: bounceLoop_Suc del: bounceLoop.simps)
    qed
  qed
qed

lemma bounceLoop_slow:
  "vlength (velocity (state ob)) \<le> 2 \<Longrightarrow>
   fst (snd (snd (bounceLoop f bid k (q, n, ob, calls)))) = ob
   \<and> snd (snd (snd (bounceLoop f bid k (q, n, ob, calls)))) = calls"
  by (induction k arbitrary: q n) (simp_all add: bounceLoop_Suc del: bounceLoop.simps(2))

lemma bounceLoop_skip:
  "bounce_bodyId b \<noteq> bid \<Longrightarrow>
   bounceLoop f bid (Suc (length fr)) (fr @ b # rest, n, ob, calls)
     = bounceLoop f bid (length fr) (fr @ b # rest, n, ob, calls)"
  by (simp add: bounceLoop_Suc nth_append del: bounceLoop.simps(2))

lemma swap_last:
  "(fr @ b # rs @ [l])[length fr := (fr @ b # rs @ [l]) ! (length fr + length (rs @ [l]))]
     = fr @ l # rs @ [l]"
proof -
  have "(fr @ b # rs @ [l]) ! (length fr + length (rs @ [l])) = (b # rs @ [l]) ! (Suc (length rs))"
    by (simp add: nth_append)
  also have "\<dots> = l"
    by (simp add: nth_append)
  finally have nth: "(fr @ b # rs @ [l]) ! (length fr + length (rs @ [l])) = l" .
  show ?thesis
    unfolding nth by (simp add: list_update_append)
qed

lemma bounceLoop_remove_last:
  "bounce_bodyId b = bid \<Longrightarrow>
   bounceLoop f bid (Suc (length fr)) (fr @ [b], Suc (length fr), ob, calls)
     = bounceLoop f bid (length fr)
         (fr, length fr,
          (if 2 < vlength (velocity (state ob)) then f (bounce_pos b) (bounce_normal b) ob else ob),
          (if 2 < vlength (velocity (state ob)) then calls @ [(b, ob)] else calls))"
  by (simp add: bounceLoop_Suc nth_append del: bounceLoop.simps(2))

lemma bounceLoop_remove_swap:
  assumes "bounce_bodyId b = bid"
  shows "bounceLoop f bid (Suc (length fr))
           (fr @ b # rs @ [l], Suc (length fr + length (rs @ [l])), ob, calls)
     = bounceLoop f bid (length fr)
         (fr @ l # rs, length fr + length (rs @ [l]),
          (if 2 < vlength (velocity (state ob)) then f (bounce_pos b) (bounce_normal b) ob else ob),
          (if 2 < vlength (velocity (state ob)) then calls @ [(b, ob)] else calls))"
proof -
  have hd: "(fr @ b # rs @ [l]) ! length fr = b"
    by (simp add: nth_append)
  have lt: "length fr < length fr + length (rs @ [l])"
    by simp
  have tk: "take (length fr + length (rs @ [l])) (fr @ l # rs @ [l]) = fr @ l # rs"
    by simp
  have n1: "Suc (length fr + length (rs @ [l])) - 1 = length fr + length (rs @ [l])"
    by simp
  show ?thesis
    by (simp only: bounceLoop_Suc hd assms if_True n1 lt swap_last tk refl)
qed

lemma bounceLoop_queue:
  "\<forall>b \<in> set rest. bounce_bodyId b \<noteq> bid \<Longrightarrow>
   mset (fst (bounceLoop f bid (length front) (front @ rest, length front + length rest, ob, calls)))
     = mset (filter (\<lambda>b. bounce_bodyId b \<noteq> bid) front) + mset rest"
proof (induction front arbitrary: rest ob calls rule: rev_induct)
  case Nil
  then show ?case by simp
next
  case (snoc b fr)
  show ?case
  proof (cases "bounce_bodyId b = bid")
    case False
    have e: "\<forall>x \<in> set (b # rest). bounce_bodyId x \<noteq> bid"
      using False snoc.prems by simp
    have "bounceLoop f bid (length (fr @ [b])) ((fr @ [b]) @ rest, length (fr @ [b]) + length rest, ob, calls)
        = bounceLoop f bid (length fr) (fr @ (b # rest), length fr + length (b # rest), ob, calls)"
      using bounceLoop_skip [OF False, of f fr rest "length fr + length (b # rest)" ob calls] by simp
    then show ?thesis
      using snoc.IH [OF e, of ob calls] False by simp
  next
    case True
    show ?thesis
    proof (cases rest rule: rev_cases)
      case Nil
      have e: "\<forall>x \<in> set ([]::bounce list). bounce_bodyId x \<noteq> bid" by simp
      have "bounceLoop f bid (length (fr @ [b])) ((fr @ [b]) @ rest, length (fr @ [b]) + length rest, ob, calls)
        = bounceLoop f bid (length fr) (fr @ [], length fr + length ([]::bounce list),
          (if 2 < vlength (velocity (state ob)) then f (bounce_pos b) (bounce_normal b) ob else ob),
          (if 2 < vlength (velocity (state ob)) then calls @ [(b, ob)] else calls))"
        using bounceLoop_remove_last [OF True, of f fr ob calls] Nil by simp
      then show ?thesis
        using snoc.IH [OF e] True Nil by simp
    next
      case (snoc rs l)
      have e: "\<forall>x \<in> set (l # rs). bounce_bodyId x \<noteq> bid"
        using snoc snoc.prems by simp
      have "bounceLoop f bid (length (fr @ [b])) ((fr @ [b]) @ rest, length (fr @ [b]) + length rest, ob, calls)
        = bounceLoop f bid (length fr) (fr @ (l # rs), length fr + length (l # rs),
          (if 2 < vlength (velocity (state ob)) then f (bounce_pos b) (bounce_normal b) ob else ob),
          (if 2 < vlength (velocity (state ob)) then calls @ [(b, ob)] else calls))"
        using bounceLoop_remove_swap [OF True, of f fr rs l ob calls] snoc by simp
      then show ?thesis
        using snoc.IH [OF e] True snoc by simp
    qed
  qed
qed

lemma syncBody_fields:
  "velocity (state (syncBody ob)) = body_velocity (body ob)"
  "returning (state (syncBody ob)) = returning (state ob)"
  "isHeld (state (syncBody ob)) = isHeld (state ob)"
  "body_id (body (syncBody ob)) = body_id (body ob)"
  by (simp_all add: syncBody_def Let_def)

text \<open>
  C9. When \<open>syncOrbPhysics\<close> runs for an orb that is not held, it removes from the
  queue every event of the orb's own body and no other event. Every call of
  \<open>onBounce\<close> is made for an event of that body and at a moment when the orb's
  speed exceeds 2. When the speed read from the body is 2 or below, no call is made at
  all: the orb leaves as the synchronisation alone made it, whatever the callback is, so
  its \<open>returning\<close> flag is unchanged and no transition to Returning happens.
\<close>

theorem syncOrbPhysics_bounce_gate:
  assumes flying: "\<not> isHeld (state ob)"
    and run: "syncOrbPhysics queue ob onBounce = (queue', ob', calls)"
  shows "mset queue' = mset (filter (\<lambda>b. bounce_bodyId b \<noteq> body_id (body ob)) queue)
    \<and> (\<forall>c \<in> set calls. 2 < vlength (velocity (state (snd c)))
                        \<and> bounce_bodyId (fst c) = body_id (body ob))
    \<and> (vlength (body_velocity (body ob)) \<le> 2 \<longrightarrow>
          calls = [] \<and> ob' = syncBody ob \<and> returning (state ob') = returning (state ob))"
proof -
  define L where "L = bounceLoop onBounce (body_id (body ob)) (length queue)
                        (queue, length queue, syncBody ob, [])"
  have res: "queue' = fst L" "ob' = fst (snd (snd L))" "calls = snd (snd (snd L))"
    using run flying
    by (simp_all add: syncOrbPhysics_def Let_def syncBody_fields L_def split: prod.splits)
  have e: "\<forall>b \<in> set ([]::bounce list). bounce_bodyId b \<noteq> body_id (body ob)"
    by simp
  have q: "mset (fst L) = mset (filter (\<lambda>b. bounce_bodyId b \<noteq> body_id (body ob)) queue)"
    using bounceLoop_queue [OF e, of onBounce queue "syncBody ob" "[]"] by (simp add: L_def)
  have e2: "\<forall>c \<in> set ([]::(bounce \<times> orb) list).
      2 < vlength (velocity (state (snd c))) \<and> bounce_bodyId (fst c) = body_id (body ob)"
    by simp
  have c: "\<forall>c \<in> set (snd (snd (snd L))). 2 < vlength (velocity (state (snd c)))
                        \<and> bounce_bodyId (fst c) = body_id (body ob)"
    unfolding L_def by (rule bounceLoop_calls [OF e2])
  have s: "vlength (body_velocity (body ob)) \<le> 2 \<longrightarrow>
      snd (snd (snd L)) = [] \<and> fst (snd (snd L)) = syncBody ob"
  proof
    assume "vlength (body_velocity (body ob)) \<le> 2"
    then have "vlength (velocity (state (syncBody ob))) \<le> 2"
      by (simp add: syncBody_fields)
    from bounceLoop_slow [OF this, of onBounce "body_id (body ob)" "length queue" queue "length queue" "[]"]
    show "snd (snd (snd L)) = [] \<and> fst (snd (snd L)) = syncBody ob"
      by (simp add: L_def)
  qed
  from q c s res show ?thesis
    by (simp add: syncBody_fields)
qed


theorem syncOrbPhysics_bounce_gate_witness:
  "\<not> isHeld (state ex_slow_orb)
   \<and> vlength (body_velocity (body ex_slow_orb)) \<le> 2
   \<and> mset (fst (syncOrbPhysics ex_queue ex_slow_orb onPlayerOrbBounce)) = {#ex_bounce8#}
   \<and> snd (snd (syncOrbPhysics ex_queue ex_slow_orb onPlayerOrbBounce)) = []
   \<and> returning (state (fst (snd (syncOrbPhysics ex_queue ex_slow_orb onPlayerOrbBounce))))
       = False"
proof -
  have h: "\<not> isHeld (state ex_slow_orb)"
    by (simp add: ex_slow_orb_def ex_orb_def ex_orbState_def)
  have r: "syncOrbPhysics ex_queue ex_slow_orb onPlayerOrbBounce =
      (fst (syncOrbPhysics ex_queue ex_slow_orb onPlayerOrbBounce),
       fst (snd (syncOrbPhysics ex_queue ex_slow_orb onPlayerOrbBounce)),
       snd (snd (syncOrbPhysics ex_queue ex_slow_orb onPlayerOrbBounce)))"
    by simp
  have v: "vlength (body_velocity (body ex_slow_orb)) \<le> 2"
    by (simp add: ex_slow_orb_def ex_body_def vlength_def)
  have f: "filter (\<lambda>b. bounce_bodyId b \<noteq> body_id (body ex_slow_orb)) ex_queue = [ex_bounce8]"
    by (simp add: ex_slow_orb_def ex_body_def ex_queue_def ex_bounce7_def ex_bounce8_def)
  have n: "returning (state ex_slow_orb) = False"
    by (simp add: ex_slow_orb_def ex_orb_def ex_orbState_def)
  show ?thesis
    using syncOrbPhysics_bounce_gate [OF h r] h v f n by (simp add: syncBody_fields)
qed

lemma bounceLoop_transition:
  assumes idle: "\<And>p n x. returning (state x) \<Longrightarrow> f p n x = x"
    and other: "\<And>p n x. \<not> far n \<Longrightarrow> f p n x = x"
    and trans: "\<And>p n x. far n \<Longrightarrow> \<not> returning (state x) \<Longrightarrow> \<not> isHeld (state x)
                  \<Longrightarrow> 2 < vlength (velocity (state x)) \<Longrightarrow> f p n x = T x"
    and after: "\<And>x. \<not> isHeld (state x) \<Longrightarrow> returning (state (T x)) \<and> \<not> isHeld (state (T x))"
    and rest: "\<forall>b \<in> set rest. bounce_bodyId b \<noteq> bid"
    and flying: "\<not> isHeld (state ob)"
  shows "(returning (state ob) \<longrightarrow>
            fst (snd (snd (bounceLoop f bid (length front)
                   (front @ rest, length front + length rest, ob, calls)))) = ob)
       \<and> (\<not> returning (state ob) \<and> 2 < vlength (velocity (state ob)) \<longrightarrow>
            fst (snd (snd (bounceLoop f bid (length front)
                   (front @ rest, length front + length rest, ob, calls))))
            = (if \<exists>b \<in> set front. bounce_bodyId b = bid \<and> far (bounce_normal b)
               then T ob else ob))"
  using rest flying
proof (induction front arbitrary: rest ob calls rule: rev_induct)
  case Nil
  then show ?case by simp
next
  case (snoc b fr)
  show ?case
  proof (cases "bounce_bodyId b = bid")
    case False
    have e: "\<forall>x \<in> set (b # rest). bounce_bodyId x \<noteq> bid"
      using False snoc.prems by simp
    have "bounceLoop f bid (length (fr @ [b])) ((fr @ [b]) @ rest, length (fr @ [b]) + length rest, ob, calls)
        = bounceLoop f bid (length fr) (fr @ (b # rest), length fr + length (b # rest), ob, calls)"
      using bounceLoop_skip [OF False, of f fr rest "length fr + length (b # rest)" ob calls] by simp
    then show ?thesis
      using snoc.IH [OF e snoc.prems(2), of calls] False by auto
  next
    case True
    define ob1 where "ob1 = (if 2 < vlength (velocity (state ob))
                            then f (bounce_pos b) (bounce_normal b) ob else ob)"
    define calls1 where "calls1 = (if 2 < vlength (velocity (state ob)) then calls @ [(b, ob)] else calls)"
    obtain rest1 where r1: "\<forall>x \<in> set rest1. bounce_bodyId x \<noteq> bid"
      and len: "length rest1 = length rest"
      and step: "bounceLoop f bid (length (fr @ [b]))
                   ((fr @ [b]) @ rest, length (fr @ [b]) + length rest, ob, calls)
               = bounceLoop f bid (length fr) (fr @ rest1, length fr + length rest1, ob1, calls1)"
    proof (cases rest rule: rev_cases)
      case Nil
      have "bounceLoop f bid (length (fr @ [b]))
                   ((fr @ [b]) @ rest, length (fr @ [b]) + length rest, ob, calls)
               = bounceLoop f bid (length fr) (fr @ [], length fr + length ([]::bounce list), ob1, calls1)"
        using bounceLoop_remove_last [OF True, of f fr ob calls] Nil
        by (simp add: ob1_def calls1_def)
      with Nil that [of "[]"] show ?thesis by simp
    next
      case (snoc rs l)
      have "bounceLoop f bid (length (fr @ [b]))
                   ((fr @ [b]) @ rest, length (fr @ [b]) + length rest, ob, calls)
               = bounceLoop f bid (length fr) (fr @ (l # rs), length fr + length (l # rs), ob1, calls1)"
        using bounceLoop_remove_swap [OF True, of f fr rs l ob calls] snoc
        by (simp add: ob1_def calls1_def)
      moreover have "\<forall>x \<in> set (l # rs). bounce_bodyId x \<noteq> bid"
        using snoc snoc.prems(1) by simp
      ultimately show ?thesis
        using that [of "l # rs"] snoc by simp
    qed
    show ?thesis
    proof (cases "returning (state ob)")
      case ret: True
      then have "ob1 = ob" by (simp add: ob1_def idle)
      with snoc.IH [OF r1 snoc.prems(2), of calls1] ret step show ?thesis by simp
    next
      case nret: False
      show ?thesis
      proof (cases "2 < vlength (velocity (state ob))")
        case slow: False
        then show ?thesis using nret by simp
      next
        case fast: True
        show ?thesis
        proof (cases "far (bounce_normal b)")
          case notfar: False
          then have "ob1 = ob" by (simp add: ob1_def other)
          with snoc.IH [OF r1 snoc.prems(2), of calls1] nret fast step True notfar
          show ?thesis by auto
        next
          case isfar: True
          then have o1: "ob1 = T ob"
            using fast nret snoc.prems(2) by (simp add: ob1_def trans)
          have h: "\<not> isHeld (state (T ob))" "returning (state (T ob))"
            using after [OF snoc.prems(2)] by simp_all
          from snoc.IH [OF r1 h(1), of calls1] h(2) step o1 True isfar nret fast
          show ?thesis by auto
        qed
      qed
    qed
  qed
qed


lemma bounce_handlers_transition:
  assumes flying: "\<not> isHeld (state ob)"
    and notReturning: "\<not> returning (state ob)"
    and moving: "0.01 < vlength (velocity (state ob))"
  shows "(vz normal < - 0.5 \<longrightarrow>
           returning (state (onPlayerOrbBounce pos normal ob))
         \<and> \<not> isHeld (state (onPlayerOrbBounce pos normal ob))
         \<and> vlength (velocity (state (onPlayerOrbBounce pos normal ob))) = 22
         \<and> (\<exists>k. 0 < k \<and> velocity (state (onPlayerOrbBounce pos normal ob))
                            = multiplyScalar (velocity (state ob)) k)
         \<and> curveAccel (state (onPlayerOrbBounce pos normal ob)) = Vec3 0 0 0
         \<and> curveTimer (state (onPlayerOrbBounce pos normal ob)) = 0
         \<and> body_position (body (onPlayerOrbBounce pos normal ob)) = Vec3 0 (- 50) 0
         \<and> \<not> insideArena (body_position (body (onPlayerOrbBounce pos normal ob))))
       \<and> (0.5 < vz normal \<longrightarrow>
           returning (state (onOpponentOrbBounce pos normal ob))
         \<and> \<not> isHeld (state (onOpponentOrbBounce pos normal ob))
         \<and> vlength (velocity (state (onOpponentOrbBounce pos normal ob))) = 22
         \<and> (\<exists>k. 0 < k \<and> velocity (state (onOpponentOrbBounce pos normal ob))
                            = multiplyScalar (velocity (state ob)) k)
         \<and> curveAccel (state (onOpponentOrbBounce pos normal ob)) = Vec3 0 0 0
         \<and> curveTimer (state (onOpponentOrbBounce pos normal ob)) = 0
         \<and> body_position (body (onOpponentOrbBounce pos normal ob)) = Vec3 0 (- 50) 0
         \<and> \<not> insideArena (body_position (body (onOpponentOrbBounce pos normal ob))))"
proof -
  define s where "s = vlength (velocity (state ob))"
  have s0: "0 < s" using moving by (simp add: s_def)
  have k0: "0 < 22 / s" using s0 by simp
  have len: "vlength (multiplyScalar (velocity (state ob)) (22 / s)) = 22"
    using s0 by (simp add: vlength_multiplyScalar s_def [symmetric])
  have ex: "\<exists>k. 0 < k \<and> multiplyScalar (velocity (state ob)) (22 / s)
                          = multiplyScalar (velocity (state ob)) k"
    using k0 by blast
  have out: "\<not> insideArena (Vec3 0 (- 50) 0)"
    by (simp add: insideArena_def)
  have p: "vz normal < - 0.5 \<Longrightarrow> onPlayerOrbBounce pos normal ob =
      ob\<lparr>state := (state ob)\<lparr>returning := True, returnTimer := 0,
              velocity := multiplyScalar (velocity (state ob)) (22 / s),
              curveTimer := 0, curveAccel := Vec3 0 0 0\<rparr>,
          body := (body ob)\<lparr>body_position := Vec3 0 (- 50) 0, body_velocity := Vec3 0 0 0\<rparr>\<rparr>"
    using flying notReturning moving
    by (simp add: onPlayerOrbBounce_def Let_def RETURN_INITIAL_SPEED_def s_def)
  have o: "0.5 < vz normal \<Longrightarrow> onOpponentOrbBounce pos normal ob =
      ob\<lparr>state := (state ob)\<lparr>returning := True, returnTimer := 0,
              velocity := multiplyScalar (velocity (state ob)) (22 / s),
              curveTimer := 0, curveAccel := Vec3 0 0 0\<rparr>,
          body := (body ob)\<lparr>body_position := Vec3 0 (- 50) 0, body_velocity := Vec3 0 0 0\<rparr>\<rparr>"
    using flying notReturning moving
    by (simp add: onOpponentOrbBounce_def Let_def RETURN_INITIAL_SPEED_def s_def)
  show ?thesis
    using p o len ex out flying by simp
qed


lemma syncOrbPhysics_delivers:
  assumes idle: "\<And>p n x. returning (state x) \<Longrightarrow> f p n x = x"
    and other: "\<And>p n x. \<not> far n \<Longrightarrow> f p n x = x"
    and same: "\<And>p n x. far n \<Longrightarrow> f p n x = T x"
    and after: "\<And>x. \<not> isHeld (state x) \<Longrightarrow> returning (state (T x)) \<and> \<not> isHeld (state (T x))"
    and flying: "\<not> isHeld (state pre)" and fresh: "\<not> returning (state pre)"
    and fast: "2 < vlength (body_velocity (body pre))"
    and ev: "b \<in> set queue" "bounce_bodyId b = body_id (body pre)" "far (bounce_normal b)"
  shows "fst (snd (syncOrbPhysics queue pre f)) = T (syncBody pre)"
proof -
  have e: "\<forall>x \<in> set ([]::bounce list). bounce_bodyId x \<noteq> body_id (body pre)"
    by simp
  have h: "\<not> isHeld (state (syncBody pre))" "\<not> returning (state (syncBody pre))"
      "2 < vlength (velocity (state (syncBody pre)))"
    using flying fresh fast by (simp_all add: syncBody_fields)
  have hit: "\<exists>x \<in> set queue. bounce_bodyId x = body_id (body pre) \<and> far (bounce_normal x)"
    using ev by blast
  have "fst (snd (snd (bounceLoop f (body_id (body pre)) (length queue)
            (queue @ [], length queue + length ([]::bounce list), syncBody pre, []))))
      = (if \<exists>x \<in> set queue. bounce_bodyId x = body_id (body pre) \<and> far (bounce_normal x)
         then T (syncBody pre) else syncBody pre)"
    using bounceLoop_transition [of f far T "[]" "body_id (body pre)" "syncBody pre" queue "[]",
        OF idle other same after e h(1)] h(2,3)
    by blast
  then have "fst (snd (snd (bounceLoop f (body_id (body pre)) (length queue)
            (queue, length queue, syncBody pre, [])))) = T (syncBody pre)"
    using hit by simp
  then show ?thesis
    using flying
    by (simp add: syncOrbPhysics_def Let_def syncBody_fields case_prod_beta)
qed

lemma onPlayerOrbBounce_delivered:
  assumes "\<not> isHeld (state pre)" "\<not> returning (state pre)"
    and "2 < vlength (body_velocity (body pre))"
    and "b \<in> set queue" "bounce_bodyId b = body_id (body pre)" "vz (bounce_normal b) < - 0.5"
  shows "fst (snd (syncOrbPhysics queue pre onPlayerOrbBounce))
       = onPlayerOrbBounce (Vec3 0 0 0) (Vec3 0 0 (- 1)) (syncBody pre)"
proof (rule syncOrbPhysics_delivers [where far = "\<lambda>n. vz n < - 0.5", OF _ _ _ _ assms])
  show "\<And>p n x. returning (state x) \<Longrightarrow> onPlayerOrbBounce p n x = x"
    by (simp add: onPlayerOrbBounce_def)
  show "\<And>p n x. \<not> vz n < - 0.5 \<Longrightarrow> onPlayerOrbBounce p n x = x"
    by (simp add: onPlayerOrbBounce_def)
  show "\<And>p n x. vz n < - 0.5 \<Longrightarrow>
      onPlayerOrbBounce p n x = onPlayerOrbBounce (Vec3 0 0 0) (Vec3 0 0 (- 1)) x"
    by (simp add: onPlayerOrbBounce_def)
  show "\<And>x. \<not> isHeld (state x) \<Longrightarrow>
      returning (state (onPlayerOrbBounce (Vec3 0 0 0) (Vec3 0 0 (- 1)) x))
      \<and> \<not> isHeld (state (onPlayerOrbBounce (Vec3 0 0 0) (Vec3 0 0 (- 1)) x))"
    by (simp add: onPlayerOrbBounce_def Let_def)
qed

lemma onOpponentOrbBounce_delivered:
  assumes "\<not> isHeld (state pre)" "\<not> returning (state pre)"
    and "2 < vlength (body_velocity (body pre))"
    and "b \<in> set queue" "bounce_bodyId b = body_id (body pre)" "0.5 < vz (bounce_normal b)"
  shows "fst (snd (syncOrbPhysics queue pre onOpponentOrbBounce))
       = onOpponentOrbBounce (Vec3 0 0 0) (Vec3 0 0 1) (syncBody pre)"
proof (rule syncOrbPhysics_delivers [where far = "\<lambda>n. 0.5 < vz n", OF _ _ _ _ assms])
  show "\<And>p n x. returning (state x) \<Longrightarrow> onOpponentOrbBounce p n x = x"
    by (simp add: onOpponentOrbBounce_def)
  show "\<And>p n x. \<not> 0.5 < vz n \<Longrightarrow> onOpponentOrbBounce p n x = x"
    by (simp add: onOpponentOrbBounce_def)
  show "\<And>p n x. 0.5 < vz n \<Longrightarrow>
      onOpponentOrbBounce p n x = onOpponentOrbBounce (Vec3 0 0 0) (Vec3 0 0 1) x"
    by (simp add: onOpponentOrbBounce_def)
  show "\<And>x. \<not> isHeld (state x) \<Longrightarrow>
      returning (state (onOpponentOrbBounce (Vec3 0 0 0) (Vec3 0 0 1) x))
      \<and> \<not> isHeld (state (onOpponentOrbBounce (Vec3 0 0 0) (Vec3 0 0 1) x))"
    by (simp add: onOpponentOrbBounce_def Let_def)
qed

lemma syncOrbPhysics_slow:
  assumes "\<not> isHeld (state pre)" and "vlength (body_velocity (body pre)) \<le> 2"
  shows "fst (snd (syncOrbPhysics queue pre f)) = syncBody pre"
proof -
  have "vlength (velocity (state (syncBody pre))) \<le> 2"
    using assms(2) by (simp add: syncBody_fields)
  from bounceLoop_slow [OF this, of f "body_id (body pre)" "length queue" queue "length queue" "[]"]
  show ?thesis
    using assms(1)
    by (simp add: syncOrbPhysics_def Let_def syncBody_fields case_prod_beta)
qed

lemma syncOrbPhysics_queue:
  assumes "\<not> isHeld (state ob)"
  shows "mset (fst (syncOrbPhysics queue ob onBounce))
       = mset (filter (\<lambda>b. bounce_bodyId b \<noteq> body_id (body ob)) queue)"
proof -
  have e: "\<forall>b \<in> set ([]::bounce list). bounce_bodyId b \<noteq> body_id (body ob)"
    by simp
  show ?thesis
    using bounceLoop_queue [OF e, of onBounce queue "syncBody ob" "[]"] assms
    by (simp add: syncOrbPhysics_def Let_def syncBody_fields case_prod_beta)
qed

text \<open>
  C7, as the code has it. \<open>syncOrbPhysics\<close>, the only caller of the bounce handlers,
  delivers a queued bounce event of the orb's body to the handler only while the orb's
  speed exceeds 2; at a speed of 2 or less it removes the event from the queue and the orb
  stays as the body sync left it, so no transition takes place. For an orb in flight (not
  held, not yet returning) whose speed exceeds 2 and a queued event of its body whose
  contact normal indicates the far back wall (\<open>z < -0.5\<close> for the player's orb,
  \<open>z > 0.5\<close> for the opponent's), the orb that \<open>syncOrbPhysics\<close> returns is
  \<open>returning\<close>; its velocity is a positive multiple of the velocity it flew with and has
  length \<open>RETURN_INITIAL_SPEED = 22\<close>; \<open>curveAccel\<close> and \<open>curveTimer\<close> are
  zero; and the physics body is at \<open>(0, -50, 0)\<close>, outside the playable volume. The
  handlers themselves, called directly on an orb in flight with a far-wall normal, do the
  same whenever the orb's speed exceeds 0.01.
\<close>

theorem bounce_returning_transition:
  assumes flying: "\<not> isHeld (state ob)"
    and notReturning: "\<not> returning (state ob)"
    and moving: "0.01 < vlength (velocity (state ob))"
  shows "(vz normal < - 0.5 \<longrightarrow>
           returning (state (onPlayerOrbBounce pos normal ob))
         \<and> \<not> isHeld (state (onPlayerOrbBounce pos normal ob))
         \<and> vlength (velocity (state (onPlayerOrbBounce pos normal ob))) = 22
         \<and> (\<exists>k. 0 < k \<and> velocity (state (onPlayerOrbBounce pos normal ob))
                            = multiplyScalar (velocity (state ob)) k)
         \<and> curveAccel (state (onPlayerOrbBounce pos normal ob)) = Vec3 0 0 0
         \<and> curveTimer (state (onPlayerOrbBounce pos normal ob)) = 0
         \<and> body_position (body (onPlayerOrbBounce pos normal ob)) = Vec3 0 (- 50) 0
         \<and> \<not> insideArena (body_position (body (onPlayerOrbBounce pos normal ob))))
       \<and> (0.5 < vz normal \<longrightarrow>
           returning (state (onOpponentOrbBounce pos normal ob))
         \<and> \<not> isHeld (state (onOpponentOrbBounce pos normal ob))
         \<and> vlength (velocity (state (onOpponentOrbBounce pos normal ob))) = 22
         \<and> (\<exists>k. 0 < k \<and> velocity (state (onOpponentOrbBounce pos normal ob))
                            = multiplyScalar (velocity (state ob)) k)
         \<and> curveAccel (state (onOpponentOrbBounce pos normal ob)) = Vec3 0 0 0
         \<and> curveTimer (state (onOpponentOrbBounce pos normal ob)) = 0
         \<and> body_position (body (onOpponentOrbBounce pos normal ob)) = Vec3 0 (- 50) 0
         \<and> \<not> insideArena (body_position (body (onOpponentOrbBounce pos normal ob))))
       \<and> (\<not> isHeld (state pre) \<and> \<not> returning (state pre)
          \<and> 2 < vlength (body_velocity (body pre))
          \<and> b \<in> set queue \<and> bounce_bodyId b = body_id (body pre)
          \<and> vz (bounce_normal b) < - 0.5 \<longrightarrow>
           returning (state (fst (snd (syncOrbPhysics queue pre onPlayerOrbBounce))))
         \<and> \<not> isHeld (state (fst (snd (syncOrbPhysics queue pre onPlayerOrbBounce))))
         \<and> vlength (velocity (state (fst (snd (syncOrbPhysics queue pre onPlayerOrbBounce))))) = 22
         \<and> (\<exists>k. 0 < k \<and> velocity (state (fst (snd (syncOrbPhysics queue pre onPlayerOrbBounce))))
                            = multiplyScalar (body_velocity (body pre)) k)
         \<and> curveAccel (state (fst (snd (syncOrbPhysics queue pre onPlayerOrbBounce)))) = Vec3 0 0 0
         \<and> curveTimer (state (fst (snd (syncOrbPhysics queue pre onPlayerOrbBounce)))) = 0
         \<and> body_position (body (fst (snd (syncOrbPhysics queue pre onPlayerOrbBounce)))) = Vec3 0 (- 50) 0
         \<and> \<not> insideArena (body_position (body (fst (snd (syncOrbPhysics queue pre onPlayerOrbBounce))))))
       \<and> (\<not> isHeld (state pre) \<and> \<not> returning (state pre)
          \<and> 2 < vlength (body_velocity (body pre))
          \<and> b \<in> set queue \<and> bounce_bodyId b = body_id (body pre)
          \<and> 0.5 < vz (bounce_normal b) \<longrightarrow>
           returning (state (fst (snd (syncOrbPhysics queue pre onOpponentOrbBounce))))
         \<and> \<not> isHeld (state (fst (snd (syncOrbPhysics queue pre onOpponentOrbBounce))))
         \<and> vlength (velocity (state (fst (snd (syncOrbPhysics queue pre onOpponentOrbBounce))))) = 22
         \<and> (\<exists>k. 0 < k \<and> velocity (state (fst (snd (syncOrbPhysics queue pre onOpponentOrbBounce))))
                            = multiplyScalar (body_velocity (body pre)) k)
         \<and> curveAccel (state (fst (snd (syncOrbPhysics queue pre onOpponentOrbBounce)))) = Vec3 0 0 0
         \<and> curveTimer (state (fst (snd (syncOrbPhysics queue pre onOpponentOrbBounce)))) = 0
         \<and> body_position (body (fst (snd (syncOrbPhysics queue pre onOpponentOrbBounce)))) = Vec3 0 (- 50) 0
         \<and> \<not> insideArena (body_position (body (fst (snd (syncOrbPhysics queue pre onOpponentOrbBounce))))))
       \<and> (\<not> isHeld (state pre) \<and> vlength (body_velocity (body pre)) \<le> 2 \<longrightarrow>
           fst (snd (syncOrbPhysics queue pre onBounce)) = syncBody pre
         \<and> returning (state (fst (snd (syncOrbPhysics queue pre onBounce))))
             = returning (state pre))"
proof -
  note handlers = bounce_handlers_transition [OF flying notReturning moving, of normal pos]
  have player: "returning (state (fst (snd (syncOrbPhysics queue pre onPlayerOrbBounce))))
      \<and> \<not> isHeld (state (fst (snd (syncOrbPhysics queue pre onPlayerOrbBounce))))
      \<and> vlength (velocity (state (fst (snd (syncOrbPhysics queue pre onPlayerOrbBounce))))) = 22
      \<and> (\<exists>k. 0 < k \<and> velocity (state (fst (snd (syncOrbPhysics queue pre onPlayerOrbBounce))))
                         = multiplyScalar (body_velocity (body pre)) k)
      \<and> curveAccel (state (fst (snd (syncOrbPhysics queue pre onPlayerOrbBounce)))) = Vec3 0 0 0
      \<and> curveTimer (state (fst (snd (syncOrbPhysics queue pre onPlayerOrbBounce)))) = 0
      \<and> body_position (body (fst (snd (syncOrbPhysics queue pre onPlayerOrbBounce)))) = Vec3 0 (- 50) 0
      \<and> \<not> insideArena (body_position (body (fst (snd (syncOrbPhysics queue pre onPlayerOrbBounce)))))"
    if f: "\<not> isHeld (state pre)" "\<not> returning (state pre)"
      and v: "2 < vlength (body_velocity (body pre))"
      and e: "b \<in> set queue" "bounce_bodyId b = body_id (body pre)"
        "vz (bounce_normal b) < - 0.5"
  proof -
    have h: "\<not> isHeld (state (syncBody pre))" "\<not> returning (state (syncBody pre))"
        "0.01 < vlength (velocity (state (syncBody pre)))"
      using f v by (simp_all add: syncBody_fields)
    have far: "vz (Vec3 0 0 (- 1)) < - 0.5"
      by simp
    have old: "velocity (state (syncBody pre)) = body_velocity (body pre)"
      by (simp add: syncBody_fields)
    show ?thesis
      unfolding onPlayerOrbBounce_delivered [OF f v e] old [symmetric]
      using bounce_handlers_transition [OF h, of "Vec3 0 0 (- 1)" "Vec3 0 0 0"] far
      by blast
  qed
  have opponent: "returning (state (fst (snd (syncOrbPhysics queue pre onOpponentOrbBounce))))
      \<and> \<not> isHeld (state (fst (snd (syncOrbPhysics queue pre onOpponentOrbBounce))))
      \<and> vlength (velocity (state (fst (snd (syncOrbPhysics queue pre onOpponentOrbBounce))))) = 22
      \<and> (\<exists>k. 0 < k \<and> velocity (state (fst (snd (syncOrbPhysics queue pre onOpponentOrbBounce))))
                         = multiplyScalar (body_velocity (body pre)) k)
      \<and> curveAccel (state (fst (snd (syncOrbPhysics queue pre onOpponentOrbBounce)))) = Vec3 0 0 0
      \<and> curveTimer (state (fst (snd (syncOrbPhysics queue pre onOpponentOrbBounce)))) = 0
      \<and> body_position (body (fst (snd (syncOrbPhysics queue pre onOpponentOrbBounce)))) = Vec3 0 (- 50) 0
      \<and> \<not> insideArena (body_position (body (fst (snd (syncOrbPhysics queue pre onOpponentOrbBounce)))))"
    if f: "\<not> isHeld (state pre)" "\<not> returning (state pre)"
      and v: "2 < vlength (body_velocity (body pre))"
      and e: "b \<in> set queue" "bounce_bodyId b = body_id (body pre)"
        "0.5 < vz (bounce_normal b)"
  proof -
    have h: "\<not> isHeld (state (syncBody pre))" "\<not> returning (state (syncBody pre))"
        "0.01 < vlength (velocity (state (syncBody pre)))"
      using f v by (simp_all add: syncBody_fields)
    have far: "0.5 < vz (Vec3 0 0 1)"
      by simp
    have old: "velocity (state (syncBody pre)) = body_velocity (body pre)"
      by (simp add: syncBody_fields)
    show ?thesis
      unfolding onOpponentOrbBounce_delivered [OF f v e] old [symmetric]
      using bounce_handlers_transition [OF h, of "Vec3 0 0 1" "Vec3 0 0 0"] far
      by blast
  qed
  have slow: "fst (snd (syncOrbPhysics queue pre onBounce)) = syncBody pre
      \<and> returning (state (fst (snd (syncOrbPhysics queue pre onBounce)))) = returning (state pre)"
    if "\<not> isHeld (state pre)" "vlength (body_velocity (body pre)) \<le> 2"
    using syncOrbPhysics_slow [OF that, of queue onBounce] by (simp add: syncBody_fields)
  from handlers player opponent slow show ?thesis
    by blast
qed

theorem bounce_returning_transition_witness:
  "\<not> isHeld (state ex_orb) \<and> \<not> returning (state ex_orb)
   \<and> 0.01 < vlength (velocity (state ex_orb))
   \<and> returning (state (onPlayerOrbBounce (Vec3 0 1 (- 29.7)) (Vec3 0 0 (- 1)) ex_orb))
   \<and> vlength (velocity (state (onPlayerOrbBounce (Vec3 0 1 (- 29.7)) (Vec3 0 0 (- 1)) ex_orb))) = 22
   \<and> returning (state (onOpponentOrbBounce (Vec3 0 1 29.7) (Vec3 0 0 1) ex_orb))
   \<and> vlength (velocity (state (onOpponentOrbBounce (Vec3 0 1 29.7) (Vec3 0 0 1) ex_orb))) = 22
   \<and> 2 < vlength (body_velocity (body ex_orb))
   \<and> ex_bounce7 \<in> set ex_queue \<and> bounce_bodyId ex_bounce7 = body_id (body ex_orb)
   \<and> vz (bounce_normal ex_bounce7) < - 0.5
   \<and> returning (state (fst (snd (syncOrbPhysics ex_queue ex_orb onPlayerOrbBounce))))
   \<and> vlength (velocity (state (fst (snd (syncOrbPhysics ex_queue ex_orb onPlayerOrbBounce))))) = 22
   \<and> body_position (body (fst (snd (syncOrbPhysics ex_queue ex_orb onPlayerOrbBounce))))
       = Vec3 0 (- 50) 0
   \<and> 0.5 < vz (bounce_normal (ex_bounce7\<lparr>bounce_normal := Vec3 0 0 1\<rparr>))
   \<and> returning (state (fst (snd (syncOrbPhysics
         [ex_bounce8, ex_bounce7\<lparr>bounce_normal := Vec3 0 0 1\<rparr>] ex_orb onOpponentOrbBounce))))
   \<and> vlength (velocity (state (fst (snd (syncOrbPhysics
         [ex_bounce8, ex_bounce7\<lparr>bounce_normal := Vec3 0 0 1\<rparr>] ex_orb onOpponentOrbBounce))))) = 22
   \<and> \<not> isHeld (state ex_slow_orb) \<and> vlength (body_velocity (body ex_slow_orb)) \<le> 2
   \<and> fst (snd (syncOrbPhysics ex_queue ex_slow_orb onPlayerOrbBounce)) = syncBody ex_slow_orb"
proof -
  have h: "\<not> isHeld (state ex_orb)"
    by (simp add: ex_orb_def ex_orbState_def)
  have n: "\<not> returning (state ex_orb)"
    by (simp add: ex_orb_def ex_orbState_def)
  have m: "0.01 < vlength (velocity (state ex_orb))"
    by (simp add: ex_orb_def ex_orbState_def vlength_def)
  have v: "2 < vlength (body_velocity (body ex_orb))"
    by (simp add: ex_orb_def ex_body_def vlength_def)
  have e: "ex_bounce7 \<in> set ex_queue" "bounce_bodyId ex_bounce7 = body_id (body ex_orb)"
      "vz (bounce_normal ex_bounce7) < - 0.5"
    by (simp_all add: ex_queue_def ex_bounce7_def ex_orb_def ex_body_def)
  have e': "ex_bounce7\<lparr>bounce_normal := Vec3 0 0 1\<rparr>
        \<in> set [ex_bounce8, ex_bounce7\<lparr>bounce_normal := Vec3 0 0 1\<rparr>]"
      "bounce_bodyId (ex_bounce7\<lparr>bounce_normal := Vec3 0 0 1\<rparr>) = body_id (body ex_orb)"
      "0.5 < vz (bounce_normal (ex_bounce7\<lparr>bounce_normal := Vec3 0 0 1\<rparr>))"
    by (simp_all add: ex_bounce7_def ex_orb_def ex_body_def)
  have fp: "vz (Vec3 0 0 (- 1)) < - 0.5" and fo: "0.5 < vz (Vec3 0 0 1)"
    by simp_all
  have sh: "\<not> isHeld (state ex_slow_orb)"
    by (simp add: ex_slow_orb_def ex_orb_def ex_orbState_def)
  have sv: "vlength (body_velocity (body ex_slow_orb)) \<le> 2"
    by (simp add: ex_slow_orb_def ex_body_def vlength_def)
  note a = bounce_returning_transition [where ob = ex_orb and normal = "Vec3 0 0 (- 1)"
      and pos = "Vec3 0 1 (- 29.7)" and pre = ex_orb and b = ex_bounce7 and queue = ex_queue
      and onBounce = onPlayerOrbBounce, OF h n m]
  note b = bounce_returning_transition [where ob = ex_orb and normal = "Vec3 0 0 1"
      and pos = "Vec3 0 1 29.7" and pre = ex_orb
      and b = "ex_bounce7\<lparr>bounce_normal := Vec3 0 0 1\<rparr>"
      and queue = "[ex_bounce8, ex_bounce7\<lparr>bounce_normal := Vec3 0 0 1\<rparr>]"
      and onBounce = onOpponentOrbBounce, OF h n m]
  note c = bounce_returning_transition [where ob = ex_orb and normal = "Vec3 0 0 (- 1)"
      and pos = "Vec3 0 1 (- 29.7)" and pre = ex_slow_orb and b = ex_bounce7 and queue = ex_queue
      and onBounce = onPlayerOrbBounce, OF h n m]
  show ?thesis
    using a b c h n m v e e' fp fo sh sv by blast
qed

text \<open>
  The claim as stated fails for a slow orb. An orb in flight at speed 1 with a far-wall
  event of its own body in the queue comes out of \<open>syncOrbPhysics\<close> not returning and
  with its body still in the arena, and the event is gone from the queue. A handler called
  directly on an orb at rest sets \<open>returning\<close> but leaves the speed at 0, not 22.
\<close>

theorem bounce_returning_transition_counterexample:
  "\<not> isHeld (state ex_slow_orb) \<and> \<not> returning (state ex_slow_orb)
   \<and> ex_bounce7 \<in> set ex_queue
   \<and> bounce_bodyId ex_bounce7 = body_id (body ex_slow_orb)
   \<and> vz (bounce_normal ex_bounce7) < - 0.5
   \<and> \<not> returning (state (fst (snd (syncOrbPhysics ex_queue ex_slow_orb onPlayerOrbBounce))))
   \<and> body_position (body (fst (snd (syncOrbPhysics ex_queue ex_slow_orb onPlayerOrbBounce))))
       \<noteq> Vec3 0 (- 50) 0
   \<and> ex_bounce7 \<notin> set (fst (syncOrbPhysics ex_queue ex_slow_orb onPlayerOrbBounce))
   \<and> \<not> isHeld (state (ex_orb\<lparr>state := ex_orbState\<lparr>velocity := Vec3 0 0 0\<rparr>\<rparr>))
   \<and> \<not> returning (state (ex_orb\<lparr>state := ex_orbState\<lparr>velocity := Vec3 0 0 0\<rparr>\<rparr>))
   \<and> returning (state (onPlayerOrbBounce (Vec3 0 1 (- 29.7)) (Vec3 0 0 (- 1))
                          (ex_orb\<lparr>state := ex_orbState\<lparr>velocity := Vec3 0 0 0\<rparr>\<rparr>)))
   \<and> vlength (velocity (state (onPlayerOrbBounce (Vec3 0 1 (- 29.7)) (Vec3 0 0 (- 1))
                          (ex_orb\<lparr>state := ex_orbState\<lparr>velocity := Vec3 0 0 0\<rparr>\<rparr>)))) \<noteq> 22"
proof -
  have h: "\<not> isHeld (state ex_slow_orb)" "\<not> returning (state ex_slow_orb)"
    by (simp_all add: ex_slow_orb_def ex_orb_def ex_orbState_def)
  have v: "vlength (body_velocity (body ex_slow_orb)) \<le> 2"
    by (simp add: ex_slow_orb_def ex_body_def vlength_def)
  have e: "ex_bounce7 \<in> set ex_queue" "bounce_bodyId ex_bounce7 = body_id (body ex_slow_orb)"
      "vz (bounce_normal ex_bounce7) < - 0.5"
    by (simp_all add: ex_queue_def ex_bounce7_def ex_slow_orb_def ex_body_def)
  have s: "fst (snd (syncOrbPhysics ex_queue ex_slow_orb onPlayerOrbBounce)) = syncBody ex_slow_orb"
    by (rule syncOrbPhysics_slow [OF h(1) v])
  have r: "\<not> returning (state (syncBody ex_slow_orb))"
    using h(2) by (simp add: syncBody_fields)
  have p: "body_position (body (syncBody ex_slow_orb)) \<noteq> Vec3 0 (- 50) 0"
    by (simp add: syncBody_def Let_def ex_slow_orb_def ex_body_def ARENA_HEIGHT_def)
  have f: "filter (\<lambda>b. bounce_bodyId b \<noteq> body_id (body ex_slow_orb)) ex_queue = [ex_bounce8]"
    by (simp add: ex_slow_orb_def ex_body_def ex_queue_def ex_bounce7_def ex_bounce8_def)
  have "mset (fst (syncOrbPhysics ex_queue ex_slow_orb onPlayerOrbBounce)) = {#ex_bounce8#}"
    using syncOrbPhysics_queue [OF h(1), of ex_queue onPlayerOrbBounce] f by simp
  then have "set (fst (syncOrbPhysics ex_queue ex_slow_orb onPlayerOrbBounce)) = {ex_bounce8}"
    by (metis set_mset_mset set_mset_single)
  then have q: "ex_bounce7 \<notin> set (fst (syncOrbPhysics ex_queue ex_slow_orb onPlayerOrbBounce))"
    by (simp add: ex_bounce7_def ex_bounce8_def)
  have still: "\<not> isHeld (state (ex_orb\<lparr>state := ex_orbState\<lparr>velocity := Vec3 0 0 0\<rparr>\<rparr>))"
      "\<not> returning (state (ex_orb\<lparr>state := ex_orbState\<lparr>velocity := Vec3 0 0 0\<rparr>\<rparr>))"
      "returning (state (onPlayerOrbBounce (Vec3 0 1 (- 29.7)) (Vec3 0 0 (- 1))
                          (ex_orb\<lparr>state := ex_orbState\<lparr>velocity := Vec3 0 0 0\<rparr>\<rparr>)))"
      "vlength (velocity (state (onPlayerOrbBounce (Vec3 0 1 (- 29.7)) (Vec3 0 0 (- 1))
                          (ex_orb\<lparr>state := ex_orbState\<lparr>velocity := Vec3 0 0 0\<rparr>\<rparr>)))) \<noteq> 22"
    by (simp_all add: onPlayerOrbBounce_def Let_def ex_orb_def ex_orbState_def vlength_def)
  show ?thesis
    using h e r p q still unfolding s by blast
qed

subsection \<open>Strike zone cooldown\<close>

lemma checkStrikeZone_True:
  assumes "checkStrikeZone zones name st now = (True, zones')"
  shows "\<exists>z. zones name = Some z \<and> 1000 \<le> now - lastTriggerTime z
           \<and> zones' = zones(name \<mapsto> z\<lparr>lastTriggerTime := now, flashTimer := 0.3\<rparr>)"
  using assms
  by (auto simp: checkStrikeZone_def Let_def split: option.splits if_splits)

lemma checkStrikeZone_False:
  "checkStrikeZone zones name st now = (False, zones') \<Longrightarrow> zones' = zones"
  by (auto simp: checkStrikeZone_def Let_def split: option.splits if_splits)

lemma checkStrikeZone_mono:
  assumes "checkStrikeZone zones name st now = (r, zones')"
    and "zones n = Some z" and "t0 \<le> lastTriggerTime z"
  shows "\<exists>z'. zones' n = Some z' \<and> t0 \<le> lastTriggerTime z'"
proof (cases r)
  case False
  with assms checkStrikeZone_False [of zones name st now zones'] show ?thesis by simp
next
  case True
  with assms(1) have "checkStrikeZone zones name st now = (True, zones')" by simp
  from checkStrikeZone_True [OF this]
  obtain y where y: "zones name = Some y" "1000 \<le> now - lastTriggerTime y"
      "zones' = zones(name \<mapsto> y\<lparr>lastTriggerTime := now, flashTimer := 0.3\<rparr>)"
    by blast
  show ?thesis
  proof (cases "n = name")
    case True
    with y assms(2,3) show ?thesis by simp
  next
    case False
    with y assms(2,3) show ?thesis by simp
  qed
qed

lemma calls_after_trigger:
  assumes "zones n = Some z" and "t0 \<le> lastTriggerTime z"
    and "j < length calls" and "fst (calls ! j) = n" and "checkStrikeZoneCalls zones calls ! j"
  shows "1000 \<le> snd (snd (calls ! j)) - t0"
  using assms
proof (induction calls arbitrary: zones z j)
  case Nil
  then show ?case by simp
next
  case (Cons c calls)
  obtain name st now where c: "c = (name, st, now)" by (cases c) auto
  obtain r zones' where step: "checkStrikeZone zones name st now = (r, zones')"
    by (cases "checkStrikeZone zones name st now") auto
  show ?case
  proof (cases j)
    case 0
    with Cons.prems c step have "r" "name = n" by simp_all
    with step have "checkStrikeZone zones name st now = (True, zones')" by simp
    from checkStrikeZone_True [OF this]
    obtain y where "zones name = Some y" "1000 \<le> now - lastTriggerTime y"
      by blast
    with Cons.prems(1,2) \<open>name = n\<close> 0 c show ?thesis by simp
  next
    case (Suc k)
    obtain z' where z': "zones' n = Some z'" "t0 \<le> lastTriggerTime z'"
      using checkStrikeZone_mono [OF step Cons.prems(1,2)] by blast
    from Cons.prems Suc c step have "k < length calls" "fst (calls ! k) = n"
      "checkStrikeZoneCalls zones' calls ! k" by simp_all
    from Cons.IH [OF z' this] Suc show ?thesis by simp
  qed
qed

text \<open>
  C4. In any sequence of \<open>checkStrikeZone\<close> calls, whatever orb states they are
  given, two calls for the same zone that both return true are at least 1000 ms apart.
\<close>

theorem strikeZone_cooldown:
  assumes "i < j" and "j < length calls"
    and "fst (calls ! i) = fst (calls ! j)"
    and "checkStrikeZoneCalls zones calls ! i"
    and "checkStrikeZoneCalls zones calls ! j"
  shows "1000 \<le> snd (snd (calls ! j)) - snd (snd (calls ! i))"
  using assms
proof (induction calls arbitrary: zones i j)
  case Nil
  then show ?case by simp
next
  case (Cons c calls)
  obtain name st now where c: "c = (name, st, now)" by (cases c) auto
  obtain r zones' where step: "checkStrikeZone zones name st now = (r, zones')"
    by (cases "checkStrikeZone zones name st now") auto
  obtain k where j: "j = Suc k" using Cons.prems(1) by (cases j) auto
  show ?case
  proof (cases i)
    case 0
    with Cons.prems c step have r: "r" by simp
    with step have "checkStrikeZone zones name st now = (True, zones')" by simp
    from checkStrikeZone_True [OF this]
    obtain y where y: "zones name = Some y"
      "zones' = zones(name \<mapsto> y\<lparr>lastTriggerTime := now, flashTimer := 0.3\<rparr>)"
      by blast
    then have z: "zones' name = Some (y\<lparr>lastTriggerTime := now, flashTimer := 0.3\<rparr>)"
      "now \<le> lastTriggerTime (y\<lparr>lastTriggerTime := now, flashTimer := 0.3\<rparr>)"
      by simp_all
    from Cons.prems 0 j c step have "k < length calls" "fst (calls ! k) = name"
      "checkStrikeZoneCalls zones' calls ! k" by simp_all
    from calls_after_trigger [OF z this] 0 j c show ?thesis by simp
  next
    case (Suc i')
    from Cons.prems Suc j c step have "i' < k" "k < length calls"
      "fst (calls ! i') = fst (calls ! k)"
      "checkStrikeZoneCalls zones' calls ! i'" "checkStrikeZoneCalls zones' calls ! k"
      by simp_all
    from Cons.IH [OF this] Suc j show ?thesis by simp
  qed
qed

theorem strikeZone_cooldown_witness:
  "checkStrikeZoneCalls createStrikeZones ex_calls = [True, False, True]
   \<and> fst (ex_calls ! 0) = fst (ex_calls ! 2)
   \<and> 1000 \<le> snd (snd (ex_calls ! 2)) - snd (snd (ex_calls ! 0))"
proof -
  have run: "checkStrikeZoneCalls createStrikeZones ex_calls = [True, False, True]"
    by (simp add: ex_calls_def createStrikeZones_def checkStrikeZone_def ex_strike_orbState_def
          ex_orbState_def vlength_def STRIKE_MIN_ORB_SPEED_def ARENA_LENGTH_def Let_def)
  have len: "(2::nat) < length ex_calls"
    by (simp add: ex_calls_def)
  have same: "fst (ex_calls ! 0) = fst (ex_calls ! 2)"
    by (simp add: ex_calls_def)
  have i: "checkStrikeZoneCalls createStrikeZones ex_calls ! 0"
    by (simp add: run)
  have j: "checkStrikeZoneCalls createStrikeZones ex_calls ! 2"
    by (simp add: run)
  have lt: "(0::nat) < 2"
    by simp
  show ?thesis
    using strikeZone_cooldown [OF lt len same i j] run same by simp
qed

subsection \<open>Rounds and matches\<close>

lemma scorePoint_open:
  assumes "playerScore g < 7" "opponentScore g < 7" "playerRounds g < 2" "opponentRounds g < 2"
  shows "((matchPhase (scorePoint scorer g) = between_rounds \<or> matchPhase (scorePoint scorer g) = match_over)
           \<longleftrightarrow> (playerScore (scorePoint scorer g) = 7 \<or> opponentScore (scorePoint scorer g) = 7))
       \<and> (matchPhase (scorePoint scorer g) = match_over
           \<longleftrightarrow> (playerRounds (scorePoint scorer g) = 2 \<or> opponentRounds (scorePoint scorer g) = 2))
       \<and> ((playerScore (scorePoint scorer g) = 7 \<or> opponentScore (scorePoint scorer g) = 7)
           \<longrightarrow> playerRounds (scorePoint scorer g) + opponentRounds (scorePoint scorer g)
                 = playerRounds g + opponentRounds g + 1)
       \<and> (\<not> (playerScore (scorePoint scorer g) = 7 \<or> opponentScore (scorePoint scorer g) = 7)
           \<longrightarrow> matchPhase (scorePoint scorer g) = scoring
               \<and> playerRounds (scorePoint scorer g) = playerRounds g
               \<and> opponentRounds (scorePoint scorer g) = opponentRounds g)"
  using assms
  by (cases scorer) (auto simp: scorePoint_def Let_def POINTS_TO_WIN_def ROUNDS_TO_WIN_def)

lemma scorePoint_invariant:
  "matchInvariant g \<Longrightarrow> matchPhase g = playing \<Longrightarrow> matchInvariant (scorePoint scorer g)"
  by (cases scorer)
     (auto simp: matchInvariant_def scorePoint_def Let_def POINTS_TO_WIN_def ROUNDS_TO_WIN_def)

lemma nextRound_fields:
  "playerScore (nextRound g) = 0" "opponentScore (nextRound g) = 0"
  "playerRounds (nextRound g) = playerRounds g" "opponentRounds (nextRound g) = opponentRounds g"
  "matchPhase (nextRound g) = countdown" "round' (nextRound g) = round' g + 1"
  by (simp_all add: nextRound_def startCountdown_def resetPositions_def)

lemma matchStep_invariant: "matchInvariant g \<Longrightarrow> matchInvariant (matchStep g e)"
proof (cases e)
  case Start
  assume "matchInvariant g"
  then show ?thesis
    using Start by (auto simp: matchInvariant_def startCountdown_def)
next
  case (Frame dt hit)
  assume inv: "matchInvariant g"
  show ?thesis
  proof (cases "matchPhase g")
    case playing
    then show ?thesis
      using Frame inv scorePoint_invariant by (cases hit) simp_all
  next
    case countdown
    then show ?thesis
      using Frame inv by (auto simp: matchInvariant_def updateCountdown_def Let_def)
  next
    case scoring
    then show ?thesis
      using Frame inv
      by (auto simp: matchInvariant_def updateScoringPhase_def resetPositions_def Let_def)
  next
    case between_rounds
    then show ?thesis
      using Frame inv
      by (auto simp: matchInvariant_def updateBetweenRounds_def nextRound_fields Let_def)
  qed (use Frame inv in simp_all)
next
  case GoTimeout
  assume "matchInvariant g"
  then show ?thesis
    using GoTimeout by (auto simp: matchInvariant_def beginPlaying_def)
next
  case PlayAgain
  then show ?thesis
    by (simp add: matchInvariant_def resetMatch_def startCountdown_def resetPositions_def)
qed

lemma foldl_matchStep_invariant:
  "matchInvariant g \<Longrightarrow> matchInvariant (foldl matchStep g events)"
  by (induction events arbitrary: g) (simp_all add: matchStep_invariant)

lemma matchRun_invariant: "matchInvariant (matchRun initialGameState events)"
  unfolding matchRun_def
  by (rule foldl_matchStep_invariant) (simp add: matchInvariant_def initialGameState_def)

text \<open>
  The match flow with at most one score event per frame. In every state that it reaches
  from the initial state, by any sequence of events: the round is over (phase
  between-rounds or match-over) exactly when one side's score is 7, and the phase is
  match-over exactly when one side's rounds-won is 2. For a score event in the playing
  phase: the round ends with that event exactly when it brings a score to 7, the match
  ends with it exactly when it brings a rounds-won count to 2, and otherwise the phase
  becomes scoring and the rounds-won counts are unchanged. \<open>nextRound\<close>, which
  starts a round, sets both scores to 0 and keeps both rounds-won counts.
\<close>

theorem match_flow_rounds:
  "((matchPhase (matchRun initialGameState events) = between_rounds
       \<or> matchPhase (matchRun initialGameState events) = match_over)
      \<longleftrightarrow> (playerScore (matchRun initialGameState events) = 7
           \<or> opponentScore (matchRun initialGameState events) = 7))
   \<and> (matchPhase (matchRun initialGameState events) = match_over
      \<longleftrightarrow> (playerRounds (matchRun initialGameState events) = 2
           \<or> opponentRounds (matchRun initialGameState events) = 2))
   \<and> (matchPhase (matchRun initialGameState events) = playing \<longrightarrow>
        ((matchPhase (scorePoint scorer (matchRun initialGameState events)) = between_rounds
            \<or> matchPhase (scorePoint scorer (matchRun initialGameState events)) = match_over)
           \<longleftrightarrow> (playerScore (scorePoint scorer (matchRun initialGameState events)) = 7
                \<or> opponentScore (scorePoint scorer (matchRun initialGameState events)) = 7))
      \<and> (matchPhase (scorePoint scorer (matchRun initialGameState events)) = match_over
           \<longleftrightarrow> (playerRounds (scorePoint scorer (matchRun initialGameState events)) = 2
                \<or> opponentRounds (scorePoint scorer (matchRun initialGameState events)) = 2))
      \<and> (\<not> (playerScore (scorePoint scorer (matchRun initialGameState events)) = 7
                \<or> opponentScore (scorePoint scorer (matchRun initialGameState events)) = 7)
           \<longrightarrow> matchPhase (scorePoint scorer (matchRun initialGameState events)) = scoring
               \<and> playerRounds (scorePoint scorer (matchRun initialGameState events))
                   = playerRounds (matchRun initialGameState events)
               \<and> opponentRounds (scorePoint scorer (matchRun initialGameState events))
                   = opponentRounds (matchRun initialGameState events)))
   \<and> playerScore (nextRound (matchRun initialGameState events)) = 0
   \<and> opponentScore (nextRound (matchRun initialGameState events)) = 0
   \<and> playerRounds (nextRound (matchRun initialGameState events))
       = playerRounds (matchRun initialGameState events)
   \<and> opponentRounds (nextRound (matchRun initialGameState events))
       = opponentRounds (matchRun initialGameState events)"
proof -
  define g where "g = matchRun initialGameState events"
  have inv: "matchInvariant g"
    unfolding g_def by (rule matchRun_invariant)
  have a: "(matchPhase g = between_rounds \<or> matchPhase g = match_over)
      \<longleftrightarrow> (playerScore g = 7 \<or> opponentScore g = 7)"
    using inv by (auto simp: matchInvariant_def split: if_splits)
  have b: "matchPhase g = match_over \<longleftrightarrow> (playerRounds g = 2 \<or> opponentRounds g = 2)"
    using inv by (auto simp: matchInvariant_def split: if_splits)
  have c: "matchPhase g = playing \<Longrightarrow>
      playerScore g < 7 \<and> opponentScore g < 7 \<and> playerRounds g < 2 \<and> opponentRounds g < 2"
    using inv by (auto simp: matchInvariant_def split: if_splits)
  show ?thesis
    unfolding g_def [symmetric]
    using a b c scorePoint_open [of g scorer] nextRound_fields(1-4) [of g]
    by blast
qed

lemma ex_run:
  "matchPhase (matchRun initialGameState ex_events) = playing
   \<and> playerScore (matchRun initialGameState ex_events) = 6
   \<and> opponentScore (matchRun initialGameState ex_events) = 0
   \<and> playerRounds (matchRun initialGameState ex_events) = 0
   \<and> opponentRounds (matchRun initialGameState ex_events) = 0"
  by (simp add: matchRun_def ex_events_def initialGameState_def startCountdown_def
        updateCountdown_def beginPlaying_def scorePoint_def updateScoringPhase_def
        resetPositions_def POINTS_TO_WIN_def ROUNDS_TO_WIN_def RESET_DELAY_S_def Let_def)

theorem match_flow_rounds_witness:
  "matchPhase (matchRun initialGameState ex_events) = playing
   \<and> playerScore (scorePoint player (matchRun initialGameState ex_events)) = 7
   \<and> matchPhase (scorePoint player (matchRun initialGameState ex_events)) = between_rounds
   \<and> playerRounds (scorePoint player (matchRun initialGameState ex_events)) = 1
   \<and> playerScore (nextRound (scorePoint player (matchRun initialGameState ex_events))) = 0
   \<and> playerRounds (nextRound (scorePoint player (matchRun initialGameState ex_events))) = 1"
proof -
  have s: "playerScore (scorePoint player (matchRun initialGameState ex_events)) = 7"
    and r: "playerRounds (scorePoint player (matchRun initialGameState ex_events)) = 1"
    and o: "opponentRounds (scorePoint player (matchRun initialGameState ex_events)) = 0"
    using ex_run by (simp_all add: scorePoint_def Let_def POINTS_TO_WIN_def ROUNDS_TO_WIN_def)
  have n: "playerScore (nextRound (scorePoint player (matchRun initialGameState ex_events))) = 0"
      "playerRounds (nextRound (scorePoint player (matchRun initialGameState ex_events))) = 1"
    using r by (simp_all add: nextRound_fields)
  show ?thesis
    using match_flow_rounds [of ex_events player] ex_run s r o n by auto
qed

subsection \<open>Two score events in one frame\<close>

text \<open>
  \<open>scorePoint\<close> does not look at the phase. Called once more after the player's
  score has reached \<open>POINTS_TO_WIN\<close>, for either scorer, it awards the round to the
  player a second time.
\<close>

theorem scorePoint_after_round:
  assumes "7 \<le> playerScore g"
  shows "playerRounds (scorePoint scorer g) = playerRounds g + 1"
  using assms
  by (cases scorer) (simp_all add: scorePoint_def Let_def POINTS_TO_WIN_def)

theorem scorePoint_after_round_witness:
  "7 \<le> playerScore (scorePoint player (matchRun initialGameState ex_events))
   \<and> playerRounds (scorePoint opponent (scorePoint player (matchRun initialGameState ex_events)))
       = 2
   \<and> matchPhase (scorePoint opponent (scorePoint player (matchRun initialGameState ex_events)))
       = match_over"
proof -
  have s: "playerScore (scorePoint player (matchRun initialGameState ex_events)) = 7"
    and r: "playerRounds (scorePoint player (matchRun initialGameState ex_events)) = 1"
    using ex_run by (simp_all add: scorePoint_def Let_def POINTS_TO_WIN_def ROUNDS_TO_WIN_def)
  have p: "(7::nat) \<le> playerScore (scorePoint player (matchRun initialGameState ex_events))"
    using s by simp
  have m: "matchPhase (scorePoint opponent (scorePoint player (matchRun initialGameState ex_events)))
       = match_over"
    using s r by (simp add: scorePoint_def [of opponent] Let_def POINTS_TO_WIN_def ROUNDS_TO_WIN_def)
  show ?thesis
    using scorePoint_after_round [OF p, of opponent] r p m by simp
qed

lemma distanceTo_along_z: "distanceTo (Vec3 a b c) (Vec3 a b d) = \<bar>c - d\<bar>"
  by (simp add: distanceTo_def vlength_def)

lemma vlength_along_z: "vlength (Vec3 0 0 c) = \<bar>c\<bar>"
  by (simp add: vlength_def)

lemma ex_hits_first:
  "playerOrbHitsOpponent 20000
      (ex_hit_game, ex_opponent, ex_player_orb_in_flight, ex_opponent_orb_in_flight)
   = (scorePoint player (ex_hit_game\<lparr>lastOppHitTime := 20000, shakeTimer := 0.15\<rparr>),
      ex_opponent\<lparr>dissolving := True, dissolveTimer := 0\<rparr>,
      startRecall (ex_player_orb_in_flight\<lparr>state := (state ex_player_orb_in_flight)\<lparr>strikeStacks := 0\<rparr>\<rparr>),
      ex_opponent_orb_in_flight)"
proof -
  show ?thesis
    by (simp add: playerOrbHitsOpponent_def ex_hit_game_def ex_game_def ex_opponent_def
          ex_player_orb_in_flight_def ex_orbState_def distanceTo_along_z vlength_along_z
          dissolveOpponent_def Let_def
          HIT_GRACE_PERIOD_MS_def SCORE_DEBOUNCE_MS_def SCORE_MIN_SPEED_def OPP_HIT_RADIUS_def)
qed

lemma ex_first_score:
  "scorePoint player (ex_hit_game\<lparr>lastOppHitTime := 20000, shakeTimer := 0.15\<rparr>)
   = ex_hit_game\<lparr>lastOppHitTime := 20000, shakeTimer := 0.15, playerScore := 7,
                  playerRounds := 1, matchPhase := between_rounds, resetTimer := 2.5\<rparr>"
  by (simp add: scorePoint_def ex_hit_game_def ex_game_def Let_def POINTS_TO_WIN_def
        ROUNDS_TO_WIN_def)

lemma ex_hits_second:
  "deflectedOrbHitsOpponent 20000
      (g, ex_opponent\<lparr>dissolving := True, dissolveTimer := 0\<rparr>, po, ex_opponent_orb_in_flight)
   = (g, ex_opponent\<lparr>dissolving := True, dissolveTimer := 0\<rparr>, po, ex_opponent_orb_in_flight)"
  by (simp add: deflectedOrbHitsOpponent_def)

lemma ex_hits_third:
  assumes "\<not> multiplayerActive g" and "lastPlayerHitTime g = 0" and "playerPos g = Vec3 0 1.7 28"
  shows "opponentOrbHitsPlayer 20000 (g, opp, po, ex_opponent_orb_in_flight)
   = (scorePoint opponent (g\<lparr>lastPlayerHitTime := 20000, hitFlashTimer := 0.2, shakeTimer := 0.2\<rparr>),
      opp, po,
      startRecall (ex_opponent_orb_in_flight\<lparr>state := (state ex_opponent_orb_in_flight)\<lparr>strikeStacks := 0\<rparr>\<rparr>))"
proof -
  show ?thesis
    using assms
    by (simp add: opponentOrbHitsPlayer_def ex_opponent_orb_in_flight_def ex_orbState_def
          distanceTo_along_z vlength_along_z
          Let_def HIT_GRACE_PERIOD_MS_def SCORE_DEBOUNCE_MS_def SCORE_MIN_SPEED_def
          OPP_HIT_RADIUS_def)
qed

text \<open>
  C3, at a concrete input. \<open>handleHits\<close> tests nothing between its blocks, and the
  frame loop tests the phase once per frame. In a frame of the first round with the
  player leading 6 to 0, the player's orb hits the opponent and the opponent's orb hits
  the player. The first block calls \<open>scorePoint('player')\<close>: the score becomes 7 to
  0, the round is awarded and the phase becomes between-rounds. The third block then
  calls \<open>scorePoint('opponent')\<close>: the score becomes 7 to 1 and, the player's score
  still standing at 7, the round is awarded to the player again. The frame ends with
  rounds-won 2 to 0 and the phase match-over, after one round.
\<close>

theorem handleHits_double_round_award:
  "matchPhase ex_hit_game = playing \<and> playerScore ex_hit_game = 6
   \<and> opponentScore ex_hit_game = 0
   \<and> playerRounds ex_hit_game = 0 \<and> opponentRounds ex_hit_game = 0
   \<and> playerScore (fst (handleHits 20000
         (ex_hit_game, ex_opponent, ex_player_orb_in_flight, ex_opponent_orb_in_flight))) = 7
   \<and> opponentScore (fst (handleHits 20000
         (ex_hit_game, ex_opponent, ex_player_orb_in_flight, ex_opponent_orb_in_flight))) = 1
   \<and> playerRounds (fst (handleHits 20000
         (ex_hit_game, ex_opponent, ex_player_orb_in_flight, ex_opponent_orb_in_flight))) = 2
   \<and> opponentRounds (fst (handleHits 20000
         (ex_hit_game, ex_opponent, ex_player_orb_in_flight, ex_opponent_orb_in_flight))) = 0
   \<and> matchPhase (fst (handleHits 20000
         (ex_hit_game, ex_opponent, ex_player_orb_in_flight, ex_opponent_orb_in_flight)))
       = match_over"
proof -
  define g1 where "g1 = ex_hit_game\<lparr>lastOppHitTime := 20000, shakeTimer := 0.15, playerScore := 7,
                  playerRounds := 1, matchPhase := between_rounds, resetTimer := 2.5\<rparr>"
  have g1: "\<not> multiplayerActive g1" "lastPlayerHitTime g1 = 0" "playerPos g1 = Vec3 0 1.7 28"
    by (simp_all add: g1_def ex_hit_game_def ex_game_def)
  have m: "\<not> multiplayerActive ex_hit_game"
    by (simp add: ex_hit_game_def ex_game_def)
  have a: "playerOrbHitsOpponent 20000
      (ex_hit_game, ex_opponent, ex_player_orb_in_flight, ex_opponent_orb_in_flight)
    = (g1, ex_opponent\<lparr>dissolving := True, dissolveTimer := 0\<rparr>,
       startRecall (ex_player_orb_in_flight\<lparr>state := (state ex_player_orb_in_flight)\<lparr>strikeStacks := 0\<rparr>\<rparr>),
       ex_opponent_orb_in_flight)"
    unfolding g1_def ex_first_score [symmetric] by (rule ex_hits_first)
  note b = ex_hits_second [of g1
      "startRecall (ex_player_orb_in_flight\<lparr>state := (state ex_player_orb_in_flight)\<lparr>strikeStacks := 0\<rparr>\<rparr>)"]
  note c = ex_hits_third [OF g1, of "ex_opponent\<lparr>dissolving := True, dissolveTimer := 0\<rparr>"
      "startRecall (ex_player_orb_in_flight\<lparr>state := (state ex_player_orb_in_flight)\<lparr>strikeStacks := 0\<rparr>\<rparr>)"]
  have run: "fst (handleHits 20000
         (ex_hit_game, ex_opponent, ex_player_orb_in_flight, ex_opponent_orb_in_flight))
      = scorePoint opponent (g1\<lparr>lastPlayerHitTime := 20000, hitFlashTimer := 0.2, shakeTimer := 0.2\<rparr>)"
    by (simp only: handleHits_def prod.case m not_False_eq_True if_True a b c fst_conv)
  have start: "matchPhase ex_hit_game = playing" "playerScore ex_hit_game = 6"
      "opponentScore ex_hit_game = 0" "playerRounds ex_hit_game = 0" "opponentRounds ex_hit_game = 0"
    by (simp_all add: ex_hit_game_def ex_game_def)
  show ?thesis
    unfolding run using start
    by (simp add: scorePoint_def g1_def Let_def POINTS_TO_WIN_def ROUNDS_TO_WIN_def)
qed

subsection \<open>Throwing\<close>

lemma vnormalize_unit: "vlength v = 1 \<Longrightarrow> vnormalize v = v"
  by (cases v) (simp add: vnormalize_def multiplyScalar_def)

lemma handleThrow_accepted:
  assumes "playerArmed g" "\<not> gameState.blocking g" "throwTriggered input" "\<not> gameState.dashActive g"
  shows "velocity (state (snd (handleThrow input playerVelocity flickDx now1 now2 (g, ob))))
       = vadd (multiplyScalar (applyEulerForward (cameraPitch g) (cameraYaw g))
                 (45 * (1 + real (strikeStacks (state ob)) * 0.1)))
              (multiplyScalar playerVelocity 0.5)"
    and "\<not> isHeld (state (snd (handleThrow input playerVelocity flickDx now1 now2 (g, ob))))"
    and "\<not> recalling (state (snd (handleThrow input playerVelocity flickDx now1 now2 (g, ob))))"
    and "\<not> returning (state (snd (handleThrow input playerVelocity flickDx now1 now2 (g, ob))))"
    and "\<not> playerArmed (fst (handleThrow input playerVelocity flickDx now1 now2 (g, ob)))"
    and "body_velocity (body (snd (handleThrow input playerVelocity flickDx now1 now2 (g, ob))))
       = velocity (state (snd (handleThrow input playerVelocity flickDx now1 now2 (g, ob))))"
  using assms vnormalize_unit [OF vlength_applyEulerForward, of "cameraPitch g" "cameraYaw g"]
  by (simp_all add: handleThrow_def Let_def THROW_SPEED_def STRIKE_SPEED_SCALE_def
        vadd_def multiplyScalar_def)

lemma vadd_zero: "vadd v (multiplyScalar (Vec3 0 0 0) k) = v"
  by (cases v) (simp add: vadd_def multiplyScalar_def)

lemma release_at_rest:
  assumes "0 < k" and "vlength a = 1"
  shows "vlength (vadd (multiplyScalar a k) (multiplyScalar (Vec3 0 0 0) h)) = k
       \<and> vnormalize (vadd (multiplyScalar a k) (multiplyScalar (Vec3 0 0 0) h)) = a"
proof -
  have len: "vlength (multiplyScalar a k) = k"
    using assms by (simp add: vlength_multiplyScalar)
  have dir: "vnormalize (multiplyScalar a k) = a"
    using assms len by (cases a) (simp add: vnormalize_def multiplyScalar_def)
  show ?thesis
    using len dir by (simp add: vadd_zero)
qed

text \<open>
  C2, as the code has it. A throw is accepted when the thrower is armed, not blocking and
  not dashing and the throw is triggered. The orb's release velocity is then the aim
  direction (the camera's forward vector, of length 1) times
  \<open>THROW_SPEED \<times> (1 + strikeStacks \<times> STRIKE_SPEED_SCALE)\<close>, plus half of the
  thrower's own velocity. So for a thrower at rest the release speed is
  \<open>45 \<times> (1 + strikeStacks \<times> 0.1)\<close> and the release direction is the aim direction.
  In the same call the orb leaves Held for InFlight: \<open>isHeld\<close>, \<open>recalling\<close> and
  \<open>returning\<close> are all false.
\<close>

theorem handleThrow_release:
  assumes armed: "playerArmed g" and notBlocking: "\<not> gameState.blocking g"
    and triggered: "throwTriggered input" and notDashing: "\<not> gameState.dashActive g"
    and held: "isHeld (state ob)"
  shows "velocity (state (snd (handleThrow input playerVelocity flickDx now1 now2 (g, ob))))
       = vadd (multiplyScalar (applyEulerForward (cameraPitch g) (cameraYaw g))
                 (45 * (1 + real (strikeStacks (state ob)) * 0.1)))
              (multiplyScalar playerVelocity 0.5)
    \<and> (playerVelocity = Vec3 0 0 0 \<longrightarrow>
         vlength (velocity (state (snd (handleThrow input playerVelocity flickDx now1 now2 (g, ob)))))
           = 45 * (1 + real (strikeStacks (state ob)) * 0.1)
       \<and> vnormalize (velocity (state (snd (handleThrow input playerVelocity flickDx now1 now2 (g, ob)))))
           = applyEulerForward (cameraPitch g) (cameraYaw g))
    \<and> \<not> isHeld (state (snd (handleThrow input playerVelocity flickDx now1 now2 (g, ob))))
    \<and> \<not> recalling (state (snd (handleThrow input playerVelocity flickDx now1 now2 (g, ob))))
    \<and> \<not> returning (state (snd (handleThrow input playerVelocity flickDx now1 now2 (g, ob))))"
proof -
  note acc = handleThrow_accepted [OF armed notBlocking triggered notDashing,
      of playerVelocity flickDx now1 now2 ob]
  have k0: "0 < 45 * (1 + real (strikeStacks (state ob)) * 0.1)"
    by (simp add: add_pos_nonneg)
  have a1: "vlength (applyEulerForward (cameraPitch g) (cameraYaw g)) = 1"
    by (rule vlength_applyEulerForward)
  note rest = release_at_rest [OF k0 a1, of "0.5"]
  show ?thesis
  proof (intro conjI impI)
    show "velocity (state (snd (handleThrow input playerVelocity flickDx now1 now2 (g, ob))))
       = vadd (multiplyScalar (applyEulerForward (cameraPitch g) (cameraYaw g))
                 (45 * (1 + real (strikeStacks (state ob)) * 0.1)))
              (multiplyScalar playerVelocity 0.5)"
      by (rule acc(1))
  next
    assume pv: "playerVelocity = Vec3 0 0 0"
    show "vlength (velocity (state (snd (handleThrow input playerVelocity flickDx now1 now2 (g, ob)))))
           = 45 * (1 + real (strikeStacks (state ob)) * 0.1)"
      by (subst acc(1), unfold pv, rule conjunct1 [OF rest])
  next
    assume pv: "playerVelocity = Vec3 0 0 0"
    show "vnormalize (velocity (state (snd (handleThrow input playerVelocity flickDx now1 now2 (g, ob)))))
           = applyEulerForward (cameraPitch g) (cameraYaw g)"
      by (subst acc(1), unfold pv, rule conjunct2 [OF rest])
  qed (rule acc)+
qed

theorem handleThrow_release_witness:
  "playerArmed ex_ready_game \<and> \<not> gameState.blocking ex_ready_game
   \<and> throwTriggered ex_throw_input \<and> \<not> gameState.dashActive ex_ready_game
   \<and> isHeld (state ex_held_orb)
   \<and> vlength (velocity (state (snd (handleThrow ex_throw_input (Vec3 0 0 0) 0 5000 5000
             (ex_ready_game, ex_held_orb))))) = 45
   \<and> \<not> isHeld (state (snd (handleThrow ex_throw_input (Vec3 0 0 0) 0 5000 5000
             (ex_ready_game, ex_held_orb))))"
proof -
  have g: "playerArmed ex_ready_game" "\<not> gameState.blocking ex_ready_game"
      "\<not> gameState.dashActive ex_ready_game"
    by (simp_all add: ex_ready_game_def ex_game_def)
  have i: "throwTriggered ex_throw_input"
    by (simp add: ex_throw_input_def)
  have h: "isHeld (state ex_held_orb)"
    by (simp add: ex_held_orb_def)
  have o: "strikeStacks (state ex_held_orb) = 0"
    by (simp add: ex_held_orb_def ex_orbState_def)
  note t = handleThrow_release [OF g(1) g(2) i g(3) h, of "Vec3 0 0 0" 0 5000 5000]
  from t have "vlength (velocity (state (snd (handleThrow ex_throw_input (Vec3 0 0 0) 0 5000 5000
             (ex_ready_game, ex_held_orb))))) = 45 * (1 + real (strikeStacks (state ex_held_orb)) * 0.1)"
    by blast
  then have v: "vlength (velocity (state (snd (handleThrow ex_throw_input (Vec3 0 0 0) 0 5000 5000
             (ex_ready_game, ex_held_orb))))) = 45"
    by (simp add: o)
  from t have n: "\<not> isHeld (state (snd (handleThrow ex_throw_input (Vec3 0 0 0) 0 5000 5000
             (ex_ready_game, ex_held_orb))))"
    by blast
  show ?thesis
    using g i h v n by blast
qed

text \<open>
  The claim as stated fails for a thrower in motion. Walking forward at speed 6 with no
  strike stacks, the orb is released at speed 48, not 45; stepping sideways at speed 6,
  it is released with velocity \<open>(3, 0, -45)\<close>, which does not point along the aim
  direction \<open>(0, 0, -1)\<close>.
\<close>

theorem handleThrow_release_counterexample:
  "vlength (velocity (state (snd (handleThrow ex_throw_input (Vec3 0 0 (- 6)) 0 5000 5000
             (ex_ready_game, ex_held_orb))))) = 48
   \<and> THROW_SPEED * (1 + real (strikeStacks (state ex_held_orb)) * STRIKE_SPEED_SCALE) = 45
   \<and> applyEulerForward (cameraPitch ex_ready_game) (cameraYaw ex_ready_game) = Vec3 0 0 (- 1)
   \<and> velocity (state (snd (handleThrow ex_throw_input (Vec3 6 0 0) 0 5000 5000
             (ex_ready_game, ex_held_orb)))) = Vec3 3 0 (- 45)
   \<and> vx (vnormalize (velocity (state (snd (handleThrow ex_throw_input (Vec3 6 0 0) 0 5000 5000
             (ex_ready_game, ex_held_orb)))))) > 0"
proof -
  have g: "playerArmed ex_ready_game" "\<not> gameState.blocking ex_ready_game"
      "\<not> gameState.dashActive ex_ready_game" "cameraPitch ex_ready_game = 0"
      "cameraYaw ex_ready_game = 0"
    by (simp_all add: ex_ready_game_def ex_game_def)
  have i: "throwTriggered ex_throw_input"
    by (simp add: ex_throw_input_def)
  have o: "strikeStacks (state ex_held_orb) = 0"
    by (simp add: ex_held_orb_def ex_orbState_def)
  have aim: "applyEulerForward 0 0 = Vec3 0 0 (- 1)"
    by (simp add: applyEulerForward_def)
  have v1: "velocity (state (snd (handleThrow ex_throw_input (Vec3 0 0 (- 6)) 0 5000 5000
             (ex_ready_game, ex_held_orb)))) = Vec3 0 0 (- 48)"
    using handleThrow_accepted(1) [OF g(1) g(2) i g(3)] g(4,5) o aim
    by (simp add: vadd_def multiplyScalar_def)
  have v2: "velocity (state (snd (handleThrow ex_throw_input (Vec3 6 0 0) 0 5000 5000
             (ex_ready_game, ex_held_orb)))) = Vec3 3 0 (- 45)"
    using handleThrow_accepted(1) [OF g(1) g(2) i g(3)] g(4,5) o aim
    by (simp add: vadd_def multiplyScalar_def)
  have pos: "0 < vlength (Vec3 3 0 (- 45))"
    by (simp add: vlength_def)
  have n: "0 < vx (vnormalize (Vec3 3 0 (- 45)))"
    using pos by (simp add: vnormalize_def multiplyScalar_def Let_def)
  show ?thesis
    using v1 v2 n g o aim by (simp add: vlength_def THROW_SPEED_def)
qed

subsection \<open>Shield energy\<close>

lemma handleBlock_hold:
  assumes "inputState.blocking input" "playerArmed g" "onGround g" "\<not> gameState.dashActive g"
    and "0.15 < shieldEnergy g" and "0 < shieldEnergy g - 0.35 * dt"
  shows "handleBlock input dt g
       = g\<lparr>gameState.blocking := True, shieldEnergy := shieldEnergy g - 0.35 * dt\<rparr>"
  using assms
  by (simp add: handleBlock_def Let_def SHIELD_MIN_ACTIVATE_def SHIELD_DRAIN_RATE_def)

lemma handleBlock_low:
  assumes "\<not> gameState.dashActive g" and "shieldEnergy g \<le> 0.15"
  shows "handleBlock input dt g
       = g\<lparr>gameState.blocking := False,
            shieldEnergy := min 1 (shieldEnergy g + 0.3 * dt)\<rparr>"
  using assms
  by (simp add: handleBlock_def Let_def SHIELD_MIN_ACTIVATE_def SHIELD_RECHARGE_RATE_def
        SHIELD_ENERGY_MAX_def)

lemma ex_block_frames:
  "n \<le> 146 \<Longrightarrow>
   (handleBlock ex_block_input (1 / 60) ^^ n) ex_ready_game
     = ex_ready_game\<lparr>gameState.blocking := (0 < n), shieldEnergy := 1 - real n * (7 / 1200)\<rparr>"
proof (induction n)
  case 0
  show ?case by (simp add: ex_ready_game_def ex_game_def)
next
  case (Suc n)
  define g where "g = ex_ready_game\<lparr>gameState.blocking := (0 < n),
                                     shieldEnergy := 1 - real n * (7 / 1200)\<rparr>"
  have n: "real n \<le> 145" using Suc.prems by simp
  have pre: "inputState.blocking ex_block_input" "playerArmed g" "onGround g"
      "\<not> gameState.dashActive g"
    by (simp_all add: g_def ex_block_input_def ex_ready_game_def ex_game_def)
  have e: "shieldEnergy g = 1 - real n * (7 / 1200)" by (simp add: g_def)
  have hi: "0.15 < shieldEnergy g" using n e by simp
  have pos: "0 < shieldEnergy g - 0.35 * (1 / 60)" using n e by simp
  have "(handleBlock ex_block_input (1 / 60) ^^ Suc n) ex_ready_game
      = handleBlock ex_block_input (1 / 60) g"
    using Suc by (simp add: g_def)
  also have "\<dots> = g\<lparr>gameState.blocking := True,
                       shieldEnergy := shieldEnergy g - 0.35 * (1 / 60)\<rparr>"
    by (rule handleBlock_hold [OF pre hi pos])
  also have "\<dots> = ex_ready_game\<lparr>gameState.blocking := (0 < Suc n),
                                   shieldEnergy := 1 - real (Suc n) * (7 / 1200)\<rparr>"
  proof -
    have "shieldEnergy g - 0.35 * (1 / 60) = 1 - real (Suc n) * (7 / 1200)"
      unfolding e by (simp add: field_simps)
    then show ?thesis
      by (simp add: g_def)
  qed
  finally show ?case .
qed

text \<open>
  C6, at a concrete input. The player holds the block button from a full shield, at 60
  frames per second. After 146 frames the shield is up with energy \<open>89/600\<close>, just
  below \<open>SHIELD_MIN_ACTIVATE\<close>. The next frame drops the shield, although the energy
  is far above zero, and recharges it to \<open>92/600\<close>: the test
  \<open>shieldEnergy > SHIELD_MIN_ACTIVATE\<close> is applied on every frame, also while the
  shield is up.
\<close>

theorem handleBlock_drops_above_zero:
  "gameState.blocking ((handleBlock ex_block_input (1 / 60) ^^ 146) ex_ready_game)
   \<and> shieldEnergy ((handleBlock ex_block_input (1 / 60) ^^ 146) ex_ready_game) = 89 / 600
   \<and> \<not> gameState.blocking (handleBlock ex_block_input (1 / 60)
          ((handleBlock ex_block_input (1 / 60) ^^ 146) ex_ready_game))
   \<and> shieldEnergy (handleBlock ex_block_input (1 / 60)
          ((handleBlock ex_block_input (1 / 60) ^^ 146) ex_ready_game)) = 92 / 600"
proof -
  have r: "(handleBlock ex_block_input (1 / 60) ^^ 146) ex_ready_game
      = ex_ready_game\<lparr>gameState.blocking := True, shieldEnergy := 89 / 600\<rparr>"
    using ex_block_frames [of 146] by simp
  have d: "\<not> gameState.dashActive (ex_ready_game\<lparr>gameState.blocking := True, shieldEnergy := 89 / 600\<rparr>)"
    by (simp add: ex_ready_game_def ex_game_def)
  have l: "shieldEnergy (ex_ready_game\<lparr>gameState.blocking := True, shieldEnergy := 89 / 600\<rparr>) \<le> 0.15"
    by simp
  show ?thesis
    unfolding r using handleBlock_low [OF d l, of ex_block_input "1 / 60"] by simp
qed

text \<open>
  What \<open>handleBlock\<close> does keep, for a frame time \<open>dt \<ge> 0\<close> and an energy in
  \<open>[0, 1]\<close>: the energy stays in \<open>[0, 1]\<close>; the shield goes from idle to active
  only if the energy exceeds 0.15; a frame that ends with the shield active has drained
  \<open>0.35 \<times> dt\<close>; a frame that ends with the shield idle, and did not drain the energy
  to zero, has recharged \<open>0.3 \<times> dt\<close> up to the maximum; and a frame that drains the
  energy to zero drops the shield.
\<close>

theorem handleBlock_energy:
  assumes dt: "0 \<le> dt" and lo: "0 \<le> shieldEnergy g" and hi: "shieldEnergy g \<le> 1"
  shows "0 \<le> shieldEnergy (handleBlock input dt g) \<and> shieldEnergy (handleBlock input dt g) \<le> 1
    \<and> (\<not> gameState.blocking g \<and> gameState.blocking (handleBlock input dt g)
          \<longrightarrow> 0.15 < shieldEnergy g)
    \<and> (gameState.blocking (handleBlock input dt g)
          \<longrightarrow> shieldEnergy (handleBlock input dt g) = shieldEnergy g - 0.35 * dt)
    \<and> (\<not> gameState.dashActive g \<and> \<not> gameState.blocking (handleBlock input dt g)
          \<and> 0 < shieldEnergy g - 0.35 * dt
          \<longrightarrow> shieldEnergy (handleBlock input dt g) = min 1 (shieldEnergy g + 0.3 * dt))
    \<and> (inputState.blocking input \<and> playerArmed g \<and> onGround g \<and> \<not> gameState.dashActive g
          \<and> 0.15 < shieldEnergy g \<and> shieldEnergy g - 0.35 * dt \<le> 0
          \<longrightarrow> \<not> gameState.blocking (handleBlock input dt g))"
proof -
  have m: "0 \<le> 0.3 * dt" "0 \<le> 0.35 * dt" using dt by simp_all
  show ?thesis
    using lo hi m
    by (auto simp: handleBlock_def Let_def SHIELD_MIN_ACTIVATE_def SHIELD_DRAIN_RATE_def
          SHIELD_RECHARGE_RATE_def SHIELD_ENERGY_MAX_def min_def)
qed

theorem handleBlock_energy_witness:
  "(0::real) \<le> 1 / 60 \<and> 0 \<le> shieldEnergy ex_ready_game \<and> shieldEnergy ex_ready_game \<le> 1
   \<and> gameState.blocking (handleBlock ex_block_input (1 / 60) ex_ready_game)
   \<and> shieldEnergy (handleBlock ex_block_input (1 / 60) ex_ready_game) = 1193 / 1200
   \<and> \<not> gameState.blocking (handleBlock ex_throw_input (1 / 60)
          (ex_ready_game\<lparr>shieldEnergy := 0.5\<rparr>))
   \<and> shieldEnergy (handleBlock ex_throw_input (1 / 60) (ex_ready_game\<lparr>shieldEnergy := 0.5\<rparr>))
       = 101 / 200"
proof -
  have dt: "(0::real) \<le> 1 / 60" by simp
  have e: "shieldEnergy ex_ready_game = 1"
    by (simp add: ex_ready_game_def ex_game_def)
  have b1: "gameState.blocking (handleBlock ex_block_input (1 / 60) ex_ready_game)"
    by (simp add: handleBlock_def Let_def ex_block_input_def ex_ready_game_def ex_game_def
          SHIELD_MIN_ACTIVATE_def SHIELD_DRAIN_RATE_def)
  have b2: "\<not> gameState.blocking (handleBlock ex_throw_input (1 / 60)
          (ex_ready_game\<lparr>shieldEnergy := 0.5\<rparr>))"
    by (simp add: handleBlock_def Let_def ex_throw_input_def ex_ready_game_def ex_game_def)
  have d: "\<not> gameState.dashActive (ex_ready_game\<lparr>shieldEnergy := 0.5\<rparr>)"
    by (simp add: ex_ready_game_def ex_game_def)
  show ?thesis
    using handleBlock_energy [of "1 / 60" ex_ready_game ex_block_input]
      handleBlock_energy [of "1 / 60" "ex_ready_game\<lparr>shieldEnergy := 0.5\<rparr>" ex_throw_input]
      dt e b1 b2 d
    by simp
qed

end
